theory Spec2Isabelle
  imports Main
begin

section \<open>Errors\<close>

text \<open>
  Exceptions of the program are values.  \<open>BirthdayParseError\<close> is the only exception
  class the cog declares (a subclass of \<open>ValueError\<close>); it carries its message.
  \<open>ValueError\<close> stands for the built-in exception raised by \<open>datetime\<close>
  (an instance that is not a \<open>BirthdayParseError\<close>), \<open>AttributeError\<close> and
  \<open>KeyError\<close> for the built-in ones of attribute assignment and \<open>str.format\<close>,
  \<open>HTTPException\<close> for a failed delivery by the chat client.
\<close>

datatype error =
    BirthdayParseError string
  | ValueError string
  | AttributeError string
  | KeyError string
  | HTTPException string

fun is_BirthdayParseError :: "error \<Rightarrow> bool" where
  "is_BirthdayParseError (BirthdayParseError _) = True"
| "is_BirthdayParseError _ = False"

text \<open>\<open>type(e).__name__\<close>: the exception class of an error.\<close>

fun class_name :: "error \<Rightarrow> string" where
  "class_name (BirthdayParseError _) = ''BirthdayParseError''"
| "class_name (ValueError _) = ''ValueError''"
| "class_name (AttributeError _) = ''AttributeError''"
| "class_name (KeyError _) = ''KeyError''"
| "class_name (HTTPException _) = ''HTTPException''"

section \<open>Characters and numerals\<close>

text \<open>
  A character is a code point below 256.  \<open>is_digit\<close> is \<open>\d\<close>: of these code points
  the decimal digits are 0 to 9.  \<open>is_space\<close> is \<open>\s\<close> and what \<open>str.strip\<close> removes:
  of these code points the ones for which \<open>str.isspace\<close> holds, among them the next-line
  control 0x85 and the no-break space 0xA0.
\<close>

definition is_digit :: "char \<Rightarrow> bool" where
  "is_digit c = (c \<in> set ''0123456789'')"

definition is_space :: "char \<Rightarrow> bool" where
  "is_space c = (c \<in> set [CHR 0x09, CHR 0x0A, CHR 0x0B, CHR 0x0C, CHR 0x0D,
                            CHR 0x1C, CHR 0x1D, CHR 0x1E, CHR 0x1F, CHR '' '',
                            CHR 0x85, CHR 0xA0])"

text \<open>\<open>str.strip()\<close>.\<close>

definition strip :: "string \<Rightarrow> string" where
  "strip s = rev (dropWhile is_space (rev (dropWhile is_space s)))"

definition digit_val :: "char \<Rightarrow> int" where
  "digit_val c = int (of_char c) - 48"

text \<open>
  \<open>int(s)\<close> on a string of decimal digits; \<open>int\<close> leaves the whitespace around
  them out.
\<close>

definition int_of_digits :: "string \<Rightarrow> int" where
  "int_of_digits s = foldl (\<lambda>acc c. 10 * acc + digit_val c) 0 (strip s)"

definition digit_char :: "nat \<Rightarrow> char" where
  "digit_char n = ''0123456789'' ! (n mod 10)"

text \<open>\<open>str(n)\<close> for a natural number, and for an integer.\<close>

fun show_nat :: "nat \<Rightarrow> string" where
  "show_nat n = (if n < 10 then [digit_char n] else show_nat (n div 10) @ [digit_char n])"

declare show_nat.simps [simp del]

definition show_int :: "int \<Rightarrow> string" where
  "show_int i = (if i < 0 then CHR ''-'' # show_nat (nat (- i)) else show_nat (nat i))"

text \<open>
  The format specification \<open>02\<close> (and \<open>04\<close>) applied to an integer: the sign first,
  then zeros up to the width.
\<close>

definition zfill :: "nat \<Rightarrow> int \<Rightarrow> string" where
  "zfill w i =
     (if i < 0
      then CHR ''-'' # replicate (w - 1 - length (show_nat (nat (- i)))) CHR ''0''
             @ show_nat (nat (- i))
      else replicate (w - length (show_nat (nat i))) CHR ''0'' @ show_nat (nat i))"

fun starts_with :: "string \<Rightarrow> string \<Rightarrow> bool" where
  "starts_with [] s = True"
| "starts_with (p # ps) [] = False"
| "starts_with (p # ps) (c # cs) = (p = c \<and> starts_with ps cs)"

text \<open>\<open>sub in s\<close> on strings.\<close>

fun contains :: "string \<Rightarrow> string \<Rightarrow> bool" where
  "contains sub [] = (sub = [])"
| "contains sub (c # cs) = (starts_with sub (c # cs) \<or> contains sub cs)"

section \<open>Regular expressions\<close>

text \<open>
  The fragment of \<open>re\<close> that the patterns of the cog and of \<open>strptime\<close> use.
  \<open>rmatch r s\<close> lists, in the order in which the backtracking matcher tries them, every
  way \<open>r\<close> matches a prefix of \<open>s\<close>: the named groups captured and the rest of the input.
  \<open>re_match\<close> is \<open>pattern.match\<close>: anchored at the start only, the first way wins.
\<close>

datatype regex =
    Eps
  | Lit char
  | Digit
  | Cls string
  | Spaces
  | Opt regex
  | Seq regex regex
  | Alt regex regex
  | Group string regex

type_synonym groups = "(string \<times> string) list"

fun rmatch :: "regex \<Rightarrow> string \<Rightarrow> (groups \<times> string) list" where
  "rmatch Eps s = [([], s)]"
| "rmatch (Lit c) s = (case s of [] \<Rightarrow> [] | x # r \<Rightarrow> if x = c then [([], r)] else [])"
| "rmatch Digit s = (case s of [] \<Rightarrow> [] | x # r \<Rightarrow> if is_digit x then [([], r)] else [])"
| "rmatch (Cls cs) s = (case s of [] \<Rightarrow> [] | x # r \<Rightarrow> if x \<in> set cs then [([], r)] else [])"
| "rmatch Spaces s =
     map (\<lambda>k. ([], drop k s)) (rev [1 ..< Suc (length (takeWhile is_space s))])"
| "rmatch (Opt r) s = rmatch r s @ [([], s)]"
| "rmatch (Seq r1 r2) s =
     concat (map (\<lambda>(g, rest). map (\<lambda>(h, rest'). (g @ h, rest')) (rmatch r2 rest))
                 (rmatch r1 s))"
| "rmatch (Alt r1 r2) s = rmatch r1 s @ rmatch r2 s"
| "rmatch (Group n r) s =
     map (\<lambda>(g, rest). (g @ [(n, take (length s - length rest) s)], rest)) (rmatch r s)"

fun seqs :: "regex list \<Rightarrow> regex" where
  "seqs [] = Eps"
| "seqs (r # rs) = Seq r (seqs rs)"

fun alts :: "regex \<Rightarrow> regex list \<Rightarrow> regex" where
  "alts r [] = r"
| "alts r (r' # rs) = Alt r (alts r' rs)"

definition re_match :: "regex \<Rightarrow> string \<Rightarrow> (groups \<times> string) option" where
  "re_match r s =
     (case rmatch r s of
        [] \<Rightarrow> None
      | (g, rest) # _ \<Rightarrow> Some (g, take (length s - length rest) s))"

section \<open>Calendar dates\<close>

datatype date = Date (d_year: int) (d_month: int) (d_day: int)

definition is_leap :: "int \<Rightarrow> bool" where
  "is_leap y = (y mod 4 = 0 \<and> (y mod 100 \<noteq> 0 \<or> y mod 400 = 0))"

definition days_in_month :: "int \<Rightarrow> int \<Rightarrow> int" where
  "days_in_month y m =
     (if m = 2 then (if is_leap y then 29 else 28)
      else if m \<in> {4, 6, 9, 11} then 30 else 31)"

text \<open>The constructor \<open>datetime.date(year, month, day)\<close> with its range checks.\<close>

definition mk_date :: "int \<Rightarrow> int \<Rightarrow> int \<Rightarrow> error + date" where
  "mk_date y m d =
     (if \<not> (1 \<le> y \<and> y \<le> 9999) then Inl (ValueError ''year is out of range'')
      else if \<not> (1 \<le> m \<and> m \<le> 12) then Inl (ValueError ''month must be in 1..12'')
      else if \<not> (1 \<le> d \<and> d \<le> days_in_month y m)
        then Inl (ValueError ''day is out of range for month'')
      else Inr (Date y m d))"

text \<open>\<open>date1 > date2\<close>.\<close>

definition date_gt :: "date \<Rightarrow> date \<Rightarrow> bool" where
  "date_gt a b =
     (d_year a > d_year b \<or>
      (d_year a = d_year b \<and>
        (d_month a > d_month b \<or> (d_month a = d_month b \<and> d_day a > d_day b))))"

text \<open>
  \<open>strftime("%Y")\<close>.  The documented output has four digits; the C library of some
  platforms does not fill years below 1000 with zeros, so the filling is a parameter
  \<open>pad\<close> of the platform.
\<close>

definition strftime_Y :: "bool \<Rightarrow> int \<Rightarrow> string" where
  "strftime_Y pad y = (if pad then zfill 4 y else show_int y)"

section \<open>strptime\<close>

text \<open>
  \<open>datetime.datetime.strptime(data, format).date()\<close> for the directives the cog uses.
  The format is turned into a regular expression (a directive into its named group, a run
  of whitespace into \<open>\s+\<close>, any other character into itself); the data must match it
  with nothing left over; the groups are converted to numbers (a two-digit year up to 68
  is in 2000, above in 1900) and the date is built.
\<close>

definition directive :: "char \<Rightarrow> regex option" where
  "directive c =
     (if c = CHR ''d'' then
        Some (Group ''d'' (alts (Seq (Lit CHR ''3'') (Cls ''01''))
                [Seq (Cls ''12'') Digit, Seq (Lit CHR ''0'') (Cls ''123456789''),
                 Cls ''123456789'', Seq (Lit CHR '' '') (Cls ''123456789'')]))
      else if c = CHR ''m'' then
        Some (Group ''m'' (alts (Seq (Lit CHR ''1'') (Cls ''012''))
                [Seq (Lit CHR ''0'') (Cls ''123456789''), Cls ''123456789'']))
      else if c = CHR ''y'' then Some (Group ''y'' (seqs [Digit, Digit]))
      else if c = CHR ''Y'' then Some (Group ''Y'' (seqs [Digit, Digit, Digit, Digit]))
      else None)"

fun format_regex :: "string \<Rightarrow> regex list option" where
  "format_regex [] = Some []"
| "format_regex [c] =
     (if c = CHR ''%'' then None
      else if is_space c then Some [Spaces] else Some [Lit c])"
| "format_regex (c # c' # cs) =
     (if c = CHR ''%'' then
        (case directive c' of
           None \<Rightarrow> None
         | Some r \<Rightarrow> map_option (Cons r) (format_regex cs))
      else if is_space c then
        (if is_space c' then format_regex (c' # cs)
         else map_option (Cons Spaces) (format_regex (c' # cs)))
      else map_option (Cons (Lit c)) (format_regex (c' # cs)))"

definition group_int :: "groups \<Rightarrow> string \<Rightarrow> int option" where
  "group_int g n = map_option int_of_digits (map_of g n)"

definition strptime :: "string \<Rightarrow> string \<Rightarrow> error + date" where
  "strptime data fmt =
     (case format_regex fmt of
        None \<Rightarrow> Inl (ValueError ''bad directive in format'')
      | Some rs \<Rightarrow>
          (case rmatch (seqs rs) data of
             [] \<Rightarrow> Inl (ValueError ''time data does not match format'')
           | (g, rest) # _ \<Rightarrow>
               if rest \<noteq> [] then Inl (ValueError ''unconverted data remains'')
               else
                 let y = (case group_int g ''y'' of
                            Some v \<Rightarrow> (if v \<le> 68 then v + 2000 else v + 1900)
                          | None \<Rightarrow>
                              (case group_int g ''Y'' of Some v \<Rightarrow> v | None \<Rightarrow> 1900));
                     m = (case group_int g ''m'' of Some v \<Rightarrow> v | None \<Rightarrow> 1);
                     d = (case group_int g ''d'' of Some v \<Rightarrow> v | None \<Rightarrow> 1)
                 in mk_date y m d))"

section \<open>Birthday.parse\_date\<close>

definition PATTERNS_DATE :: "(regex \<times> string) list" where
  "PATTERNS_DATE =
    [(Group ''date'' (seqs [Digit, Digit, Digit, Digit, Lit CHR ''-'', Opt (Cls ''01''), Digit,
                            Lit CHR ''-'', Opt (Cls ''0123''), Digit]), ''%Y-%m-%d''),
     (Group ''date'' (seqs [Digit, Digit, Lit CHR ''-'', Opt (Cls ''01''), Digit,
                            Lit CHR ''-'', Opt (Cls ''0123''), Digit]), ''%y-%m-%d''),
     (Group ''date'' (seqs [Opt (Cls ''01''), Digit, Lit CHR ''-'', Opt (Cls ''0123''), Digit]),
        ''%m-%d''),
     (Group ''date'' (seqs [Opt (Cls ''0123''), Digit, Lit CHR ''.'', Opt (Cls ''01''), Digit,
                            Lit CHR ''.'', Digit, Digit, Digit, Digit]), ''%d.%m.%Y''),
     (Group ''date'' (seqs [Opt (Cls ''0123''), Digit, Lit CHR ''.'', Opt (Cls ''01''), Digit,
                            Lit CHR ''.'', Digit, Digit]), ''%d.%m.%y''),
     (Group ''date'' (seqs [Opt (Cls ''0123''), Digit, Lit CHR ''.'', Opt (Cls ''01''), Digit]),
        ''%d.%m''),
     (Group ''date'' (seqs [Opt (Cls ''0123''), Digit, Lit CHR ''.'', Opt (Cls ''01''), Digit,
                            Lit CHR ''.'']), ''%d.%m.''),
     (Group ''date'' (seqs [Opt (Cls ''01''), Digit, Lit CHR ''/'', Opt (Cls ''0123''), Digit,
                            Lit CHR ''/'', Digit, Digit, Digit, Digit]), ''%m/%d/%Y''),
     (Group ''date'' (seqs [Opt (Cls ''01''), Digit, Lit CHR ''/'', Opt (Cls ''0123''), Digit,
                            Lit CHR ''/'', Digit, Digit]), ''%m/%d/%y''),
     (Group ''date'' (seqs [Opt (Cls ''01''), Digit, Lit CHR ''/'', Opt (Cls ''0123''), Digit]),
        ''%m/%d'')]"

text \<open>
  The loop over the patterns: the first pattern that matches gives the text of its group
  \<open>date\<close> and its format; \<open>None\<close> is the \<open>else\<close> branch of the loop.  Every
  pattern is one group named \<open>date\<close>, so \<open>match["date"]\<close> is always there and is the
  whole match.
\<close>

fun first_match :: "(regex \<times> string) list \<Rightarrow> string \<Rightarrow> (string \<times> string) option" where
  "first_match [] text = None"
| "first_match ((pattern, fmt) # ps) text =
     (case re_match pattern text of
        None \<Rightarrow> first_match ps text
      | Some (g, whole) \<Rightarrow>
          (case map_of g ''date'' of
             Some m \<Rightarrow> Some (m, fmt)
           | None \<Rightarrow> Some (whole, fmt)))"

definition MSG_UNPARSABLE :: string where
  "MSG_UNPARSABLE = ''The birthday you've entered cannot be parsed. :pensive:''"

definition MSG_FUTURE :: string where
  "MSG_FUTURE = ''You cannot be born in the future.''"

text \<open>
  \<open>parse_date\<close> reads the clock: \<open>today\<close> is the value of \<open>datetime.date.today()\<close>
  (and the date of \<open>datetime.datetime.now()\<close>).
\<close>

definition parse_date :: "bool \<Rightarrow> date \<Rightarrow> string \<Rightarrow> error + (int option \<times> int \<times> int)" where
  "parse_date pad today text0 =
     (let text = strip text0 in
      case first_match PATTERNS_DATE text of
        None \<Rightarrow> Inl (BirthdayParseError MSG_UNPARSABLE)
      | Some (match, fmt) \<Rightarrow>
          if \<not> contains ''%y'' fmt \<and> \<not> contains ''%Y'' fmt then
            (let year_fmt = '' %Y'';
                 match' = match @ CHR '' '' # strftime_Y pad (d_year today);
                 fmt' = fmt @ year_fmt
             in case strptime match' fmt' of
                  Inl e \<Rightarrow> Inl e
                | Inr date \<Rightarrow> Inr (None, d_month date, d_day date))
          else
            (case strptime match fmt of
               Inl e \<Rightarrow> Inl e
             | Inr date \<Rightarrow>
                 if date_gt date today then Inl (BirthdayParseError MSG_FUTURE)
                 else Inr (Some (d_year date), d_month date, d_day date)))"

section \<open>The Birthday model and its textual form\<close>

text \<open>
  A row of the table.  A \<open>DateTimeField\<close> holds a naive local \<open>datetime\<close>, modelled as
  the number of microseconds since 0001-01-01 00:00: comparison and the subtraction of a
  number of days are those of the integers.  \<open>date_created\<close> and \<open>date_updated\<close> are
  the fields of \<open>BaseModel\<close>.
\<close>

record Birthday =
  user_id :: int
  guild_id :: int
  year :: "int option"
  month :: int
  day :: int
  last_notified :: "int option"
  enabled :: bool
  date_created :: int
  date_updated :: int

text \<open>\<open>date.strftime("%d.%m.%Y")\<close>.\<close>

definition strftime_dmY :: "bool \<Rightarrow> date \<Rightarrow> string" where
  "strftime_dmY pad d =
     zfill 2 (d_day d) @ ''.'' @ zfill 2 (d_month d) @ ''.'' @ strftime_Y pad (d_year d)"

text \<open>\<open>Birthday.__str__\<close>; \<open>if self.year\<close> is false for \<open>None\<close> and for 0.\<close>

definition str_Birthday :: "bool \<Rightarrow> Birthday \<Rightarrow> error + string" where
  "str_Birthday pad b =
     (if year b \<noteq> None \<and> year b \<noteq> Some 0 then
        (case mk_date (the (year b)) (month b) (day b) of
           Inl e \<Rightarrow> Inl e
         | Inr d \<Rightarrow> Inr (strftime_dmY pad d))
      else Inr (zfill 2 (day b) @ ''.'' @ zfill 2 (month b) @ ''.''))"

section \<open>The database manager\<close>

text \<open>
  The table is the list of its rows; the primary key is \<open>(user_id, guild_id)\<close>.
  A Python value that a handler holds in the variable \<open>birthday\<close> is \<open>None\<close>, a model
  instance, or the coroutine object that a call of an \<open>async\<close> method returns when it is
  not awaited.
\<close>

type_synonym store = "Birthday list"

definition pk :: "Birthday \<Rightarrow> int \<times> int" where
  "pk b = (user_id b, guild_id b)"

datatype pyval = PNone | Instance Birthday | Coroutine

fun truthy :: "pyval \<Rightarrow> bool" where
  "truthy PNone = False"
| "truthy (Instance b) = True"
| "truthy Coroutine = True"

text \<open>\<open>await manager.safe_get(Birthday, user_id=.., guild_id=..)\<close>.\<close>

definition safe_get :: "store \<Rightarrow> int \<Rightarrow> int \<Rightarrow> pyval" where
  "safe_get st uid gid =
     (case find (\<lambda>b. user_id b = uid \<and> guild_id b = gid) st of
        None \<Rightarrow> PNone
      | Some b \<Rightarrow> Instance b)"

text \<open>A keyword argument of \<open>update_fields\<close>: a field name with its value.\<close>

datatype field =
    F_year "int option"
  | F_month int
  | F_day int
  | F_last_notified "int option"
  | F_enabled bool
  | F_date_updated int

fun setattr :: "field \<Rightarrow> Birthday \<Rightarrow> Birthday" where
  "setattr (F_year v) b = b\<lparr>year := v\<rparr>"
| "setattr (F_month v) b = b\<lparr>month := v\<rparr>"
| "setattr (F_day v) b = b\<lparr>day := v\<rparr>"
| "setattr (F_last_notified v) b = b\<lparr>last_notified := v\<rparr>"
| "setattr (F_enabled v) b = b\<lparr>enabled := v\<rparr>"
| "setattr (F_date_updated v) b = b\<lparr>date_updated := v\<rparr>"

fun is_date_updated :: "field \<Rightarrow> bool" where
  "is_date_updated (F_date_updated v) = True"
| "is_date_updated _ = False"

text \<open>
  \<open>BaseModel.update\<close>: the assignments of the query, with \<open>date_updated\<close> set to the
  time of the call unless an assignment to it is there.
\<close>

definition BaseModel_update :: "int \<Rightarrow> field list \<Rightarrow> field list" where
  "BaseModel_update now upd =
     (if list_ex is_date_updated upd then upd else upd @ [F_date_updated now])"

text \<open>
  \<open>Manager.update(obj, only=...)\<close>: the query \<open>obj.update(**field_dict)\<close> restricted
  to the row of the primary key of \<open>obj\<close>, where \<open>field_dict\<close> holds the fields named in
  \<open>only\<close> with the values of \<open>obj\<close>.
\<close>

definition Manager_update :: "int \<Rightarrow> Birthday \<Rightarrow> field list \<Rightarrow> store \<Rightarrow> store" where
  "Manager_update now obj field_dict st =
     map (\<lambda>row. if pk row = pk obj then fold setattr (BaseModel_update now field_dict) row
                 else row) st"

text \<open>
  \<open>Manager.update_fields\<close>: the attributes are set on the object, then the fields named
  are written.  On a coroutine object (and on \<open>None\<close>) the first attribute access raises
  \<open>AttributeError\<close>.  The result is the object as mutated and the table.
\<close>

definition update_fields :: "int \<Rightarrow> pyval \<Rightarrow> field list \<Rightarrow> store \<Rightarrow> error + (Birthday \<times> store)" where
  "update_fields now obj kwargs st =
     (case obj of
        Instance b \<Rightarrow>
          (let b' = fold setattr kwargs b in Inr (b', Manager_update now b' kwargs st))
      | PNone \<Rightarrow> Inl (AttributeError ''NoneType object has no attribute'')
      | Coroutine \<Rightarrow> Inl (AttributeError ''coroutine object has no attribute''))"

text \<open>
  \<open>manager.create(Birthday, user_id=.., guild_id=.., year=.., month=.., day=..)\<close>:
  the other fields take their defaults, the two timestamps the time of the call.
\<close>

definition create :: "int \<Rightarrow> int \<Rightarrow> int \<Rightarrow> int option \<Rightarrow> int \<Rightarrow> int \<Rightarrow> store \<Rightarrow> Birthday \<times> store" where
  "create now uid gid y m d st =
     (let b = \<lparr>user_id = uid, guild_id = gid, year = y, month = m, day = d,
                last_notified = None, enabled = True, date_created = now, date_updated = now\<rparr>
      in (b, st @ [b]))"

text \<open>\<open>manager.delete(obj)\<close>: the row of the primary key of \<open>obj\<close> goes.\<close>

definition delete :: "Birthday \<Rightarrow> store \<Rightarrow> store" where
  "delete obj st = filter (\<lambda>row. pk row \<noteq> pk obj) st"

section \<open>The commands and listeners\<close>

record embed =
  title :: "string option"
  description :: string

fun str_error :: "error \<Rightarrow> string" where
  "str_error (BirthdayParseError m) = m"
| "str_error (ValueError m) = m"
| "str_error (AttributeError m) = m"
| "str_error (KeyError m) = m"
| "str_error (HTTPException m) = m"

text \<open>
  The command \<open>birthday\<close>.  The result is the table after the command and either the
  reply or the exception that leaves the command; only \<open>BirthdayParseError\<close> is caught.
\<close>

definition birthday ::
  "bool \<Rightarrow> date \<Rightarrow> int \<Rightarrow> int \<Rightarrow> int \<Rightarrow> string option \<Rightarrow> store \<Rightarrow> store \<times> (error + embed)" where
  "birthday pad today now uid gid text st =
     (if text \<noteq> None \<and> text \<noteq> Some [] then
        (case parse_date pad today (the text) of
           Inl e \<Rightarrow>
             (if is_BirthdayParseError e
              then (st, Inr \<lparr>title = Some ''Error'', description = str_error e\<rparr>)
              else (st, Inl e))
         | Inr (y, m, d) \<Rightarrow>
             (let bd = safe_get st uid gid in
              case (if truthy bd then update_fields now bd [F_year y, F_month m, F_day d] st
                    else Inr (create now uid gid y m d st)) of
                Inl e \<Rightarrow> (st, Inl e)
              | Inr (b, st') \<Rightarrow>
                  (case str_Birthday pad b of
                     Inl e \<Rightarrow> (st', Inl e)
                   | Inr s \<Rightarrow>
                       (st', Inr \<lparr>title = None,
                                  description = ''Your birthday was set to `'' @ s @ ''`''\<rparr>))))
      else
        (case safe_get st uid gid of
           Instance b \<Rightarrow>
             (case str_Birthday pad b of
                Inl e \<Rightarrow> (st, Inl e)
              | Inr s \<Rightarrow>
                  (st, Inr \<lparr>title = None, description = ''Your birthday is on `'' @ s @ ''`''\<rparr>))
         | _ \<Rightarrow>
             (st, Inr \<lparr>title = None, description = ''You haven't set your birthday yet.''\<rparr>)))"

text \<open>
  The listeners \<open>on_member_join\<close> and \<open>on_member_leave\<close>.  Both call
  \<open>manager.safe_get\<close> without \<open>await\<close>, so \<open>birthday\<close> is the coroutine object, whatever
  the table holds.  The result is the table after the listener and the exception that
  leaves it, if any.
\<close>

definition on_member_join :: "int \<Rightarrow> int \<Rightarrow> int \<Rightarrow> store \<Rightarrow> store \<times> error option" where
  "on_member_join now member_id member_guild_id st =
     (let bd = Coroutine in
      if truthy bd then
        (case update_fields now bd [F_enabled True] st of
           Inl e \<Rightarrow> (st, Some e)
         | Inr (b, st') \<Rightarrow> (st', None))
      else (st, None))"

definition on_member_leave :: "int \<Rightarrow> int \<Rightarrow> int \<Rightarrow> store \<Rightarrow> store \<times> error option" where
  "on_member_leave now member_id member_guild_id st =
     (let bd = Coroutine in
      if truthy bd then
        (case update_fields now bd [F_enabled False] st of
           Inl e \<Rightarrow> (st, Some e)
         | Inr (b, st') \<Rightarrow> (st', None))
      else (st, None))"

section \<open>The retention sweep\<close>

definition RETENTION_DAYS :: int where
  "RETENTION_DAYS = 90"

definition day_us :: int where
  "day_us = 86400000000"

text \<open>
  \<open>birthday_cron_retention\<close>, run at \<open>now\<close>: the rows selected are deleted one after the
  other, each with its log line.
\<close>

definition retention_query :: "int \<Rightarrow> store \<Rightarrow> Birthday list" where
  "retention_query date_expired st =
     filter (\<lambda>b. enabled b = False \<and> date_updated b < date_expired) st"

definition birthday_cron_retention :: "int \<Rightarrow> store \<Rightarrow> store \<times> string list" where
  "birthday_cron_retention now st =
     (let date_expired = now - RETENTION_DAYS * day_us in
      fold (\<lambda>b (s, log). (delete b s, log @ [''Deleting birthday of '' @ show_int (user_id b)]))
           (retention_query date_expired st) (st, []))"

section \<open>Ordinals and the congratulation\<close>

definition ORDINAL_WORDS :: "string list" where
  "ORDINAL_WORDS =
     [''zeroeth'', ''first'', ''second'', ''third'', ''fourth'', ''fifth'', ''sixth'',
      ''seventh'', ''eighth'', ''nineth'']"

text \<open>\<open>util.ordinal\<close>; \<open>w[-2:]\<close> is the last two characters of \<open>w\<close>.\<close>

definition ordinal :: "int \<Rightarrow> string" where
  "ordinal number =
     show_int number @
       (let w = ORDINAL_WORDS ! nat (number mod 10) in drop (length w - 2) w)"

definition BIRTHDAY_MESSAGES :: "string list" where
  "BIRTHDAY_MESSAGES =
     [''Happy {day}birthday, {name}! :tada:'',
      ''It's {name}'s {day}birthday today! Congratulations! :tada:'',
      ''Oh look, it's {name}'s {day}birthday! Congratz! :tada:'',
      ''Happy {day}birthday to you, {name}! :tada:'']"

text \<open>
  \<open>str.format\<close> with keyword arguments, for templates whose replacement fields are plain
  names: the state is the name being read inside braces, if any.  A value put in is not
  read again.
\<close>

fun format_go :: "(string \<times> string) list \<Rightarrow> string option \<Rightarrow> string \<Rightarrow> error + string" where
  "format_go kw None [] = Inr []"
| "format_go kw (Some n) [] = Inl (ValueError ''expected } before end of string'')"
| "format_go kw None (c # cs) =
     (if c = CHR ''{'' then format_go kw (Some []) cs
      else if c = CHR ''}'' then Inl (ValueError ''Single } encountered in format string'')
      else (case format_go kw None cs of Inl e \<Rightarrow> Inl e | Inr r \<Rightarrow> Inr (c # r)))"
| "format_go kw (Some n) (c # cs) =
     (if c = CHR ''}'' then
        (case map_of kw n of
           None \<Rightarrow> Inl (KeyError n)
         | Some v \<Rightarrow> (case format_go kw None cs of Inl e \<Rightarrow> Inl e | Inr r \<Rightarrow> Inr (v @ r)))
      else format_go kw (Some (n @ [c])) cs)"

definition py_format :: "string \<Rightarrow> (string \<times> string) list \<Rightarrow> error + string" where
  "py_format template kw = format_go kw None template"

section \<open>The notification sweep\<close>

text \<open>
  What the cog does not own.  A guild has a system channel or none and resolves a user id
  to a member (here: to the member's mention) or to none.  The world resolves a guild id,
  tells whether a send to a channel succeeds, and holds the library function
  \<open>relativedelta(today, birthday_date).years\<close>.  What one attempt reads from its
  surroundings is the clock (\<open>datetime.datetime.now()\<close>) and the two random choices: the
  index of the heading and the comment picked from \<open>BIRTHDAY_COMMENTS\<close>.
\<close>

record guild =
  system_channel :: "int option"
  get_member :: "int \<Rightarrow> string option"

record world =
  get_guild :: "int \<Rightarrow> guild option"
  send_ok :: "int \<Rightarrow> bool"
  relativedelta_years :: "date \<Rightarrow> date \<Rightarrow> int"

record ambient =
  amb_now :: int
  amb_heading :: nat
  amb_content :: string

text \<open>
  The outcome of one attempt: it returned early after logging, it raised, or it sent the
  text to the channel.
\<close>

datatype outcome = Skipped string | Raised error | Sent int string

fun is_Sent :: "outcome \<Rightarrow> bool" where
  "is_Sent (Sent ch text) = True"
| "is_Sent _ = False"

definition try_notify :: "world \<Rightarrow> ambient \<Rightarrow> Birthday \<Rightarrow> date \<Rightarrow> store \<Rightarrow> store \<times> outcome" where
  "try_notify w amb b today st =
     (case get_guild w (guild_id b) of
        None \<Rightarrow> (st, Skipped ''Unable to get guild'')
      | Some g \<Rightarrow>
     (case system_channel g of
        None \<Rightarrow> (st, Skipped ''no system channel is set'')
      | Some channel \<Rightarrow>
     (case get_member g (user_id b) of
        None \<Rightarrow> (st, Skipped ''Unable to get member'')
      | Some mention \<Rightarrow>
     (case (if year b \<noteq> None \<and> year b \<noteq> Some 0 then
              (case mk_date (the (year b)) (month b) (day b) of
                 Inl e \<Rightarrow> Inl e
               | Inr birthday_date \<Rightarrow>
                   Inr (ordinal (relativedelta_years w today birthday_date) @ '' ''))
            else Inr '' '') of
        Inl e \<Rightarrow> (st, Raised e)
      | Inr dy \<Rightarrow>
     (case py_format (BIRTHDAY_MESSAGES ! (amb_heading amb mod length BIRTHDAY_MESSAGES))
             [(''day'', dy), (''name'', mention)] of
        Inl e \<Rightarrow> (st, Raised e)
      | Inr heading \<Rightarrow>
          (let text = ''**'' @ heading @ ''**'' @ [CHR 0x0A, CHR 0x0A] @ amb_content amb in
           if \<not> send_ok w channel then (st, Raised (HTTPException ''send failed''))
           else
             (case update_fields (amb_now amb) (Instance b)
                     [F_last_notified (Some (amb_now amb))] st of
                Inl e \<Rightarrow> (st, Raised e)
              | Inr (b', st') \<Rightarrow> (st', Sent channel text))))))))"

text \<open>
  \<open>datetime.datetime(today.year, today.month, today.day, 0, 0)\<close> on the time line:
  the days before the date, in microseconds.
\<close>

definition days_before_year :: "int \<Rightarrow> int" where
  "days_before_year y = (let y' = y - 1 in y' * 365 + y' div 4 - y' div 100 + y' div 400)"

definition days_before_month :: "int \<Rightarrow> int \<Rightarrow> int" where
  "days_before_month y m = sum_list (map (days_in_month y) [1 .. m - 1])"

definition ymd2ord :: "date \<Rightarrow> int" where
  "ymd2ord d = days_before_year (d_year d) + days_before_month (d_year d) (d_month d) + d_day d"

definition midnight :: "date \<Rightarrow> int" where
  "midnight d = (ymd2ord d - 1) * day_us"

definition notify_query :: "date \<Rightarrow> store \<Rightarrow> Birthday list" where
  "notify_query today st =
     (let today_dt = midnight today in
      filter (\<lambda>b. enabled b \<and> day b = d_day today \<and> month b = d_month today \<and>
                   (case last_notified b of None \<Rightarrow> True | Some t \<Rightarrow> t < today_dt)) st)"

text \<open>
  \<open>birthday_cron_notify\<close>, run on the day \<open>today\<close>: one attempt for each row selected.
  The attempts of \<open>asyncio.gather\<close> write different rows, so they are run one after the
  other; the result is the table and the outcome of each attempt.
\<close>

definition birthday_cron_notify ::
  "world \<Rightarrow> (Birthday \<Rightarrow> ambient) \<Rightarrow> date \<Rightarrow> store \<Rightarrow> store \<times> (Birthday \<times> outcome) list" where
  "birthday_cron_notify w amb today st =
     fold (\<lambda>b (s, outs). case try_notify w (amb b) b today s of
                            (s', out) \<Rightarrow> (s', outs @ [(b, out)]))
          (notify_query today st) (st, [])"

text \<open>
  The task loop: the runs of \<open>birthday_cron_notify\<close> that fall on the day \<open>today\<close>, one
  after the other, each in its own surroundings.
\<close>

definition notify_loop ::
  "(world \<times> (Birthday \<Rightarrow> ambient)) list \<Rightarrow> date \<Rightarrow> store \<Rightarrow> store \<times> (Birthday \<times> outcome) list" where
  "notify_loop runs today st =
     fold (\<lambda>(w, amb) (s, outs). case birthday_cron_notify w amb today s of
                                   (s', outs') \<Rightarrow> (s', outs @ outs'))
          runs (st, [])"

section \<open>Notions used in the proofs\<close>

text \<open>
  \<open>fm r s\<close> is the first way \<open>r\<close> matches a prefix of \<open>s\<close>, the one \<open>re.match\<close> and
  \<open>strptime\<close> take.  When the first way of \<open>r1\<close> can be continued by \<open>r2\<close>, the two
  first ways make up the first way of the sequence.
\<close>

definition fm :: "regex \<Rightarrow> string \<Rightarrow> (groups \<times> string) option" where
  "fm r s = (case rmatch r s of [] \<Rightarrow> None | x # _ \<Rightarrow> Some x)"

text \<open>
  What a successful attempt writes: \<open>last_notified\<close> and \<open>date_updated\<close> of the rows
  of one primary key.  \<open>rows_of\<close> are the rows of a primary key.
\<close>

definition mark :: "int \<times> int \<Rightarrow> int \<Rightarrow> store \<Rightarrow> store" where
  "mark k t st =
     map (\<lambda>row. if pk row = k then row\<lparr>last_notified := Some t, date_updated := t\<rparr> else row) st"

definition rows_of :: "int \<times> int \<Rightarrow> store \<Rightarrow> Birthday list" where
  "rows_of k st = filter (\<lambda>r. pk r = k) st"

text \<open>The table after the attempts for the rows \<open>xs\<close>.\<close>

definition marks :: "world \<Rightarrow> (Birthday \<Rightarrow> ambient) \<Rightarrow> date \<Rightarrow> Birthday list \<Rightarrow> store \<Rightarrow> store" where
  "marks w amb today xs st =
     fold (\<lambda>b s. if is_Sent (snd (try_notify w (amb b) b today []))
                  then mark (pk b) (amb_now (amb b)) s else s) xs st"

text \<open>
  Every row of the key holds a \<open>last_notified\<close> at or after the midnight of \<open>today\<close>;
  such rows are not selected.
\<close>

definition notified_today :: "date \<Rightarrow> int \<times> int \<Rightarrow> store \<Rightarrow> bool" where
  "notified_today today k st =
     list_all (\<lambda>r. case last_notified r of None \<Rightarrow> False | Some t \<Rightarrow> midnight today \<le> t)
       (rows_of k st)"

section \<open>Basic facts: characters, numerals, evaluation\<close>

text \<open>
  The character classes are decided on character literals only; on a variable they stay
  folded, so that a string with unknown digits can be matched symbolically.
\<close>

lemma is_digit_Char [simp]:
  "is_digit (Char b0 b1 b2 b3 b4 b5 b6 b7) = (Char b0 b1 b2 b3 b4 b5 b6 b7 \<in> set ''0123456789'')"
  by (simp only: is_digit_def)

lemma is_space_Char [simp]:
  "is_space (Char b0 b1 b2 b3 b4 b5 b6 b7) =
    (Char b0 b1 b2 b3 b4 b5 b6 b7 \<in> set [CHR 0x09, CHR 0x0A, CHR 0x0B, CHR 0x0C, CHR 0x0D,
                            CHR 0x1C, CHR 0x1D, CHR 0x1E, CHR 0x1F, CHR '' '',
                            CHR 0x85, CHR 0xA0])"
  by (simp only: is_space_def)

lemma is_digit_not_space [simp]: "is_digit c \<Longrightarrow> \<not> is_space c"
  by (auto simp: is_digit_def is_space_def)

lemma is_digit_not_punct [simp]:
  "is_digit c \<Longrightarrow> c \<noteq> CHR ''-''"
  "is_digit c \<Longrightarrow> c \<noteq> CHR ''.''"
  "is_digit c \<Longrightarrow> c \<noteq> CHR ''/''"
  "is_digit c \<Longrightarrow> c \<noteq> CHR '' ''"
  by (auto simp: is_digit_def)

lemma lt10_cases:
  assumes "(k::nat) < 10"
  obtains "k = 0" | "k = 1" | "k = 2" | "k = 3" | "k = 4"
    | "k = 5" | "k = 6" | "k = 7" | "k = 8" | "k = 9"
  using assms by atomize_elim arith

lemma is_digit_digit_char [simp]: "is_digit (digit_char n)"
proof -
  have "n mod 10 < 10" by simp
  then show ?thesis
    by (cases rule: lt10_cases) (simp_all add: is_digit_def digit_char_def)
qed

lemma digit_val_digit_char [simp]: "digit_val (digit_char n) = int (n mod 10)"
proof -
  have "n mod 10 < 10" by simp
  then show ?thesis
    by (cases rule: lt10_cases) (simp_all add: digit_val_def digit_char_def)
qed

lemma digit_char_0: "digit_char 0 = CHR ''0''"
  by (simp add: digit_char_def)

lemma show_nat_1: "n < 10 \<Longrightarrow> show_nat n = [digit_char n]"
  by (simp add: show_nat.simps)

lemma show_nat_2:
  "10 \<le> n \<Longrightarrow> n < 100 \<Longrightarrow> show_nat n = [digit_char (n div 10), digit_char n]"
  by (subst show_nat.simps) (simp add: show_nat_1)

lemma show_nat_3:
  "100 \<le> n \<Longrightarrow> n < 1000 \<Longrightarrow>
   show_nat n = [digit_char (n div 100), digit_char (n div 10), digit_char n]"
  by (subst show_nat.simps) (simp add: show_nat_2 div_mult2_eq[symmetric])

lemma show_nat_4:
  "1000 \<le> n \<Longrightarrow> n < 10000 \<Longrightarrow>
   show_nat n =
     [digit_char (n div 1000), digit_char (n div 100), digit_char (n div 10), digit_char n]"
  by (subst show_nat.simps) (simp add: show_nat_3 div_mult2_eq[symmetric])

lemma replicate_small:
  "replicate 3 c = [c, c, c]" "replicate 2 c = [c, c]" "replicate 1 c = [c]"
  by (simp_all add: numeral_3_eq_3 numeral_2_eq_2)

lemma zfill_4:
  assumes "0 \<le> y" "y < 10000"
  shows "zfill 4 y = [digit_char (nat y div 1000), digit_char (nat y div 100),
                      digit_char (nat y div 10), digit_char (nat y)]"
proof -
  let ?n = "nat y"
  have n: "?n < 10000" using assms by simp
  have y: "\<not> y < 0" using assms by simp
  consider "?n < 10" | "10 \<le> ?n" "?n < 100" | "100 \<le> ?n" "?n < 1000" | "1000 \<le> ?n"
    by linarith
  then show ?thesis
  proof cases
    case 1
    then have "?n div 1000 = 0" "?n div 100 = 0" "?n div 10 = 0" by simp_all
    with 1 y show ?thesis
      by (simp add: zfill_def show_nat_1 digit_char_0 replicate_small)
  next
    case 2
    then have "?n div 1000 = 0" "?n div 100 = 0" by simp_all
    with 2 y show ?thesis
      by (simp add: zfill_def show_nat_2 digit_char_0 replicate_small)
  next
    case 3
    then have "?n div 1000 = 0" by simp_all
    with 3 y show ?thesis
      by (simp add: zfill_def show_nat_3 digit_char_0 replicate_small)
  next
    case 4
    then show ?thesis using y n
      by (simp add: zfill_def show_nat_4)
  qed
qed

text \<open>A year from 1 to 9999 is rendered with four digits, unless it is below 1000 on a
  platform that does not fill.\<close>

lemma strftime_Y_4:
  assumes "1 \<le> y" "y \<le> 9999" "pad \<or> 1000 \<le> y"
  shows "strftime_Y pad y = [digit_char (nat y div 1000), digit_char (nat y div 100),
                             digit_char (nat y div 10), digit_char (nat y)]"
proof (cases pad)
  case True
  then show ?thesis using assms by (simp add: strftime_Y_def zfill_4)
next
  case False
  then have "1000 \<le> nat y" "nat y < 10000" "\<not> y < 0" using assms by simp_all
  then show ?thesis using False by (simp add: strftime_Y_def show_int_def show_nat_4)
qed

lemma int_of_digits_4:
  assumes "n < 10000"
  shows "int_of_digits [digit_char (n div 1000), digit_char (n div 100),
                        digit_char (n div 10), digit_char n] = int n"
proof -
  define a where "a = n div 10"
  define b where "b = a div 10"
  define c where "c = b div 10"
  have n: "n = 10 * a + n mod 10" by (simp add: a_def)
  have a: "a = 10 * b + a mod 10" by (simp add: b_def)
  have b: "b = 10 * c + b mod 10" by (simp add: c_def)
  have c: "c mod 10 = c" using assms by (simp add: c_def b_def a_def)
  have e: "n div 100 = b" "n div 1000 = c" "n div 10 = a"
    by (simp_all add: a_def b_def c_def div_mult2_eq[symmetric])
  have "int_of_digits [digit_char c, digit_char b, digit_char a, digit_char n]
        = 10 * (10 * (10 * int (c mod 10) + int (b mod 10)) + int (a mod 10)) + int (n mod 10)"
    by (simp add: int_of_digits_def strip_def)
  also have "\<dots> = int (10 * (10 * (10 * c + b mod 10) + a mod 10) + n mod 10)"
    by (simp add: c)
  also have "10 * (10 * (10 * c + b mod 10) + a mod 10) + n mod 10 = n"
    using n a b by metis
  finally show ?thesis by (simp add: e)
qed

text \<open>The definitions that evaluate \<open>parse_date\<close> on a given text.\<close>

lemmas parse_eval =
  parse_date_def strip_def PATTERNS_DATE_def re_match_def strptime_def directive_def
  group_int_def int_of_digits_def digit_val_def mk_date_def days_in_month_def is_leap_def
  date_gt_def

section \<open>Re-setting the date (C1)\<close>

lemma safe_get_Instance:
  assumes "safe_get st uid gid = Instance b"
  shows "pk b = (uid, gid)" and "b \<in> set st"
proof -
  from assms have f: "find (\<lambda>b. user_id b = uid \<and> guild_id b = gid) st = Some b"
    by (auto simp: safe_get_def split: option.splits)
  then show "pk b = (uid, gid)" by (auto simp: find_Some_iff pk_def)
  from f show "b \<in> set st" by (auto simp: find_Some_iff)
qed

lemma birthday_reset_store:
  assumes p: "parse_date pad today t = Inr (y, m, d)" and t: "t \<noteq> []"
    and g: "safe_get st uid gid = Instance b"
  shows "fst (birthday pad today now uid gid (Some t) st) =
           map (\<lambda>row. if pk row = (uid, gid)
                       then row\<lparr>year := y, month := m, day := d, date_updated := now\<rparr>
                       else row) st"
proof -
  have k: "pk b = (uid, gid)" using safe_get_Instance[OF g] by simp
  have u: "update_fields now (Instance b) [F_year y, F_month m, F_day d] st =
     Inr (b\<lparr>year := y, month := m, day := d\<rparr>,
          map (\<lambda>row. if pk row = (uid, gid)
                       then row\<lparr>year := y, month := m, day := d, date_updated := now\<rparr>
                       else row) st)"
    using k by (simp add: update_fields_def Manager_update_def BaseModel_update_def pk_def)
  show ?thesis
    using p t g u by (simp add: birthday_def split: sum.splits)
qed

lemma parse_1_3_2000:
  "parse_date False (Date 2024 3 1) ''1.3.2000'' = Inr (Some 2000, 3, 1)"
  by (simp add: parse_eval)

text \<open>
  C1, as the code has it: when the command \<open>birthday\<close> is given a text that parses to
  \<open>(y, m, d)\<close> and the member has a row, the command writes \<open>year\<close>, \<open>month\<close>, \<open>day\<close>
  and \<open>date_updated\<close> of that row and nothing else: \<open>last_notified\<close> of every row is
  what it was.
\<close>

theorem birthday_reset_keeps_last_notified:
  assumes "parse_date pad today t = Inr (y, m, d)" and "t \<noteq> []"
    and "safe_get st uid gid = Instance b"
  shows "fst (birthday pad today now uid gid (Some t) st) =
           map (\<lambda>row. if pk row = (uid, gid)
                       then row\<lparr>year := y, month := m, day := d, date_updated := now\<rparr>
                       else row) st
         \<and> map last_notified (fst (birthday pad today now uid gid (Some t) st))
             = map last_notified st"
  unfolding birthday_reset_store[OF assms] by (simp add: comp_def)

text \<open>
  C1, as stated, fails: a row notified at instant 5 is re-set from 14.02.1990 to
  \<open>1.3.2000\<close> and is still marked as notified at instant 5.
\<close>

theorem birthday_reset_counterexample:
  "fst (birthday False (Date 2024 3 1) 77 1 1 (Some ''1.3.2000'')
         [\<lparr>user_id = 1, guild_id = 1, year = Some 1990, month = 2, day = 14,
           last_notified = Some 5, enabled = True, date_created = 0, date_updated = 0\<rparr>])
   = [\<lparr>user_id = 1, guild_id = 1, year = Some 2000, month = 3, day = 1,
        last_notified = Some 5, enabled = True, date_created = 0, date_updated = 77\<rparr>]
   \<and> map last_notified
        (fst (birthday False (Date 2024 3 1) 77 1 1 (Some ''1.3.2000'')
         [\<lparr>user_id = 1, guild_id = 1, year = Some 1990, month = 2, day = 14,
           last_notified = Some 5, enabled = True, date_created = 0, date_updated = 0\<rparr>]))
      \<noteq> [None]"
  by (simp add: birthday_def parse_1_3_2000 safe_get_def update_fields_def Manager_update_def
      BaseModel_update_def pk_def str_Birthday_def mk_date_def days_in_month_def)

theorem birthday_reset_witness:
  "fst (birthday False (Date 2024 3 1) 77 1 1 (Some ''1.3.2000'')
         [\<lparr>user_id = 1, guild_id = 1, year = Some 1990, month = 2, day = 14,
           last_notified = Some 5, enabled = True, date_created = 0, date_updated = 0\<rparr>])
   = [\<lparr>user_id = 1, guild_id = 1, year = Some 2000, month = 3, day = 1,
        last_notified = Some 5, enabled = True, date_created = 0, date_updated = 77\<rparr>]
   \<and> map last_notified (fst (birthday False (Date 2024 3 1) 77 1 1 (Some ''1.3.2000'')
         [\<lparr>user_id = 1, guild_id = 1, year = Some 1990, month = 2, day = 14,
           last_notified = Some 5, enabled = True, date_created = 0, date_updated = 0\<rparr>]))
      = [Some 5]"
  using birthday_reset_keeps_last_notified[OF parse_1_3_2000, where uid = 1 and gid = 1
      and now = 77
      and st = "[\<lparr>user_id = 1, guild_id = 1, year = Some 1990, month = 2, day = 14,
           last_notified = Some 5, enabled = True, date_created = 0, date_updated = 0\<rparr>]"
      and b = "\<lparr>user_id = 1, guild_id = 1, year = Some 1990, month = 2, day = 14,
           last_notified = Some 5, enabled = True, date_created = 0, date_updated = 0\<rparr>"]
  by (simp add: safe_get_def pk_def)

section \<open>Enabling and disabling on membership events (C6)\<close>

text \<open>
  What \<open>update_fields\<close> does with \<open>enabled\<close> on a model instance: the row of the
  instance gets the value and the time of the call as \<open>date_updated\<close>; \<open>last_notified\<close>
  is not written.  This is the path the listeners mean to take.
\<close>

lemma update_fields_enabled:
  "update_fields now (Instance b) [F_enabled v] st =
     Inr (b\<lparr>enabled := v\<rparr>,
          map (\<lambda>row. if pk row = pk b then row\<lparr>enabled := v, date_updated := now\<rparr> else row) st)"
  by (simp add: update_fields_def Manager_update_def BaseModel_update_def pk_def)

text \<open>
  C6 on the code: the listeners hold the coroutine object of the call that is not
  awaited, so for every table, member and guild the update raises \<open>AttributeError\<close> and
  no row is written: neither \<open>enabled\<close> nor \<open>date_updated\<close> changes.
\<close>

theorem member_listeners_raise:
  "on_member_join now member_id member_guild_id st
     = (st, Some (AttributeError ''coroutine object has no attribute''))
   \<and> on_member_leave now member_id member_guild_id st
     = (st, Some (AttributeError ''coroutine object has no attribute''))"
  by (simp add: on_member_join_def on_member_leave_def update_fields_def)

section \<open>An invalid calendar date (C9)\<close>

lemma parse_2000_02_30:
  "parse_date pad today ''2000-02-30'' = Inl (ValueError ''day is out of range for month'')"
  by (simp add: parse_eval)

text \<open>
  C9 on the code: \<open>2000-02-30\<close> matches the first pattern and \<open>strptime\<close> raises the
  built-in \<open>ValueError\<close>, which is not a \<open>BirthdayParseError\<close>; the command does not
  catch it and gives no reply.
\<close>

theorem invalid_calendar_date_escapes:
  "parse_date pad today ''2000-02-30'' = Inl (ValueError ''day is out of range for month'')
   \<and> \<not> is_BirthdayParseError (ValueError ''day is out of range for month'')
   \<and> birthday pad today now uid gid (Some ''2000-02-30'') st
       = (st, Inl (ValueError ''day is out of range for month''))"
  by (simp add: parse_2000_02_30 birthday_def)

section \<open>The retention sweep deletes the stale disabled rows (C5)\<close>

lemma fold_delete:
  "fst (fold (\<lambda>b (s, log). (delete b s, log @ [f b])) xs (st, lg))
     = filter (\<lambda>row. pk row \<notin> pk ` set xs) st"
proof (induction xs arbitrary: st lg)
  case Nil
  then show ?case by simp
next
  case (Cons x xs)
  have "filter (\<lambda>row. pk row \<notin> pk ` set xs) (delete x st)
        = filter (\<lambda>row. pk row \<notin> pk ` set (x # xs)) st"
    by (auto simp: delete_def intro: filter_cong)
  then show ?case using Cons.IH[of "delete x st" "lg @ [f x]"] by simp
qed

lemma retention_store:
  "fst (birthday_cron_retention now st) =
     filter (\<lambda>row. pk row \<notin> pk ` set (retention_query (now - 90 * 86400000000) st)) st"
  by (simp add: birthday_cron_retention_def RETENTION_DAYS_def day_us_def fold_delete Let_def)

text \<open>
  C5: in a table with one row per primary key, a row is gone after the retention sweep run
  at \<open>now\<close> exactly when it is disabled and its \<open>date_updated\<close> is strictly before
  \<open>now\<close> minus 90 days; a row updated exactly 90 days before \<open>now\<close> stays, and the
  sweep adds no row.
\<close>

theorem retention_deletes_exactly_stale_disabled:
  assumes "distinct (map pk st)" and "b \<in> set st"
  shows "(b \<notin> set (fst (birthday_cron_retention now st)))
           = (enabled b = False \<and> date_updated b < now - 90 * 86400000000)
         \<and> (date_updated b = now - 90 * 86400000000
              \<longrightarrow> b \<in> set (fst (birthday_cron_retention now st)))
         \<and> set (fst (birthday_cron_retention now st)) \<subseteq> set st"
proof -
  let ?sel = "retention_query (now - 90 * 86400000000) st"
  have inj: "inj_on pk (set st)" using assms(1) by (simp add: distinct_map)
  have sub: "set ?sel \<subseteq> set st" by (auto simp: retention_query_def)
  have "pk b \<in> pk ` set ?sel \<longleftrightarrow> b \<in> set ?sel"
  proof
    assume "pk b \<in> pk ` set ?sel"
    then obtain r where r: "r \<in> set ?sel" "pk r = pk b" by auto
    with sub assms(2) inj have "r = b" by (auto dest: inj_onD)
    with r show "b \<in> set ?sel" by simp
  qed auto
  then have del: "(b \<notin> set (fst (birthday_cron_retention now st))) = (b \<in> set ?sel)"
    using assms(2) by (simp add: retention_store)
  have sel: "(b \<in> set ?sel) = (enabled b = False \<and> date_updated b < now - 90 * 86400000000)"
    using assms(2) by (simp add: retention_query_def)
  show ?thesis using del sel by (auto simp: retention_store)
qed

text \<open>
  At the boundary: of two disabled rows, the one updated one microsecond before the cutoff
  is deleted and the one updated at the cutoff is kept.
\<close>

theorem retention_boundary_witness:
  "\<lparr>user_id = 1, guild_id = 1, year = None, month = 1, day = 1, last_notified = None,
     enabled = False, date_created = 0, date_updated = 863999999999\<rparr>
     \<notin> set (fst (birthday_cron_retention 8640000000000
        [\<lparr>user_id = 1, guild_id = 1, year = None, month = 1, day = 1, last_notified = None,
           enabled = False, date_created = 0, date_updated = 863999999999\<rparr>,
         \<lparr>user_id = 2, guild_id = 1, year = None, month = 1, day = 1, last_notified = None,
           enabled = False, date_created = 0, date_updated = 864000000000\<rparr>]))
   \<and> \<lparr>user_id = 2, guild_id = 1, year = None, month = 1, day = 1, last_notified = None,
     enabled = False, date_created = 0, date_updated = 864000000000\<rparr>
     \<in> set (fst (birthday_cron_retention 8640000000000
        [\<lparr>user_id = 1, guild_id = 1, year = None, month = 1, day = 1, last_notified = None,
           enabled = False, date_created = 0, date_updated = 863999999999\<rparr>,
         \<lparr>user_id = 2, guild_id = 1, year = None, month = 1, day = 1, last_notified = None,
           enabled = False, date_created = 0, date_updated = 864000000000\<rparr>]))"
proof -
  let ?r1 = "\<lparr>user_id = 1, guild_id = 1, year = None, month = 1, day = 1, last_notified = None,
     enabled = False, date_created = 0, date_updated = 863999999999\<rparr>"
  let ?r2 = "\<lparr>user_id = 2, guild_id = 1, year = None, month = 1, day = 1, last_notified = None,
     enabled = False, date_created = 0, date_updated = 864000000000\<rparr>"
  have d: "distinct (map pk [?r1, ?r2])" by (simp add: pk_def)
  show ?thesis
    using retention_deletes_exactly_stale_disabled[OF d, of ?r1 8640000000000]
      retention_deletes_exactly_stale_disabled[OF d, of ?r2 8640000000000]
    by simp
qed

section \<open>At most one notification per record and day (C2)\<close>

lemma try_notify_outcome_indep:
  "snd (try_notify w a b today st) = snd (try_notify w a b today [])"
  by (simp add: try_notify_def update_fields_def Let_def split: option.splits sum.splits)

lemma try_notify_store:
  "fst (try_notify w a b today st) =
     (if is_Sent (snd (try_notify w a b today [])) then mark (pk b) (amb_now a) st else st)"
  by (simp add: try_notify_def update_fields_def Let_def Manager_update_def BaseModel_update_def
      mark_def pk_def split: option.splits sum.splits)

lemma pk_mark [simp]: "map pk (mark k t st) = map pk st"
  by (simp add: mark_def pk_def)

lemma rows_of_mark_other: "k' \<noteq> k \<Longrightarrow> rows_of k (mark k' t st) = rows_of k st"
  by (induction st) (auto simp: rows_of_def mark_def pk_def)

lemma rows_of_mark_same:
  "rows_of k (mark k t st) =
     map (\<lambda>row. row\<lparr>last_notified := Some t, date_updated := t\<rparr>) (rows_of k st)"
  by (induction st) (auto simp: rows_of_def mark_def pk_def)

lemma sweep_fold:
  "fold (\<lambda>b (s, outs). case try_notify w (amb b) b today s of
                            (s', out) \<Rightarrow> (s', outs @ [(b, out)])) xs (st, outs0)
   = (marks w amb today xs st,
      outs0 @ map (\<lambda>b. (b, snd (try_notify w (amb b) b today []))) xs)"
proof (induction xs arbitrary: st outs0)
  case Nil
  then show ?case by (simp add: marks_def)
next
  case (Cons x xs)
  have step: "(case try_notify w (amb x) x today st of (s', out) \<Rightarrow> (s', outs0 @ [(x, out)]))
     = (fst (try_notify w (amb x) x today st),
        outs0 @ [(x, snd (try_notify w (amb x) x today []))])"
    using try_notify_outcome_indep[of w "amb x" x today st] by (simp add: case_prod_beta)
  show ?case
    by (simp add: step Cons.IH try_notify_store marks_def)
qed

lemma cron_notify_eq:
  "birthday_cron_notify w amb today st =
     (marks w amb today (notify_query today st) st,
      map (\<lambda>b. (b, snd (try_notify w (amb b) b today []))) (notify_query today st))"
  by (simp add: birthday_cron_notify_def sweep_fold)

lemma pk_marks [simp]: "map pk (marks w amb today xs st) = map pk st"
  by (induction xs arbitrary: st) (simp_all add: marks_def)

lemma rows_of_marks_other:
  "\<forall>x \<in> set xs. pk x \<noteq> k \<Longrightarrow> rows_of k (marks w amb today xs st) = rows_of k st"
  by (induction xs arbitrary: st) (simp_all add: marks_def rows_of_mark_other)

lemma rows_of_marks_sent:
  assumes "b \<in> set xs" "distinct (map pk xs)" "is_Sent (snd (try_notify w (amb b) b today []))"
  shows "rows_of (pk b) (marks w amb today xs st) =
           map (\<lambda>row. row\<lparr>last_notified := Some (amb_now (amb b)),
                           date_updated := amb_now (amb b)\<rparr>) (rows_of (pk b) st)"
  using assms
proof (induction xs arbitrary: st)
  case Nil
  then show ?case by simp
next
  case (Cons x xs)
  show ?case
  proof (cases "x = b")
    case True
    then have other: "\<forall>y \<in> set xs. pk y \<noteq> pk b" using Cons.prems(2) by (auto simp: image_iff)
    have "marks w amb today (x # xs) st = marks w amb today xs (mark (pk b) (amb_now (amb b)) st)"
      using True Cons.prems(3) by (simp add: marks_def)
    then show ?thesis
      by (simp add: rows_of_marks_other[OF other] rows_of_mark_same)
  next
    case False
    then have b: "b \<in> set xs" using Cons.prems(1) by simp
    then have ne: "pk x \<noteq> pk b" using Cons.prems(2) by (auto simp: image_iff)
    have d: "distinct (map pk xs)" using Cons.prems(2) by simp
    have "marks w amb today (x # xs) st =
            marks w amb today xs (if is_Sent (snd (try_notify w (amb x) x today []))
                                  then mark (pk x) (amb_now (amb x)) st else st)"
      by (simp add: marks_def)
    then show ?thesis
      using Cons.IH[OF b d Cons.prems(3)] ne by (simp add: rows_of_mark_other)
  qed
qed

lemma notified_today_not_selected:
  assumes "notified_today today k st" "r \<in> set (notify_query today st)"
  shows "pk r \<noteq> k"
proof
  assume "pk r = k"
  with assms(2) have "r \<in> set (rows_of k st)" by (simp add: rows_of_def notify_query_def)
  with assms(1) obtain t where "last_notified r = Some t" "midnight today \<le> t"
    by (auto simp: notified_today_def list_all_iff split: option.splits)
  with assms(2) show False by (simp add: notify_query_def)
qed

lemma cron_notify_notified_today:
  assumes "notified_today today k st" "birthday_cron_notify w amb today st = (st', outs)"
  shows "notified_today today k st'" and "\<forall>(r, out) \<in> set outs. pk r \<noteq> k"
proof -
  have sel: "\<forall>x \<in> set (notify_query today st). pk x \<noteq> k"
    using notified_today_not_selected[OF assms(1)] by blast
  from assms(2) have st': "st' = marks w amb today (notify_query today st) st"
    and outs: "outs = map (\<lambda>b. (b, snd (try_notify w (amb b) b today []))) (notify_query today st)"
    by (simp_all add: cron_notify_eq)
  show "notified_today today k st'"
    using assms(1) by (simp add: st' notified_today_def rows_of_marks_other[OF sel])
  show "\<forall>(r, out) \<in> set outs. pk r \<noteq> k"
    using sel by (auto simp: outs)
qed

lemma notify_loop_notified_today:
  assumes "notified_today today k st"
  shows "fold (\<lambda>(w, amb) (s, outs). case birthday_cron_notify w amb today s of
                                   (s', outs') \<Rightarrow> (s', outs @ outs')) runs (st, outs0) = (st', outs)
         \<Longrightarrow> \<forall>(r, out) \<in> set outs0. pk r \<noteq> k
         \<Longrightarrow> notified_today today k st' \<and> (\<forall>(r, out) \<in> set outs. pk r \<noteq> k)"
  using assms
proof (induction runs arbitrary: st outs0)
  case Nil
  then show ?case by auto
next
  case (Cons run runs)
  obtain w amb where run: "run = (w, amb)" by (cases run)
  obtain s1 o1 where c: "birthday_cron_notify w amb today st = (s1, o1)"
    by (cases "birthday_cron_notify w amb today st")
  note n = cron_notify_notified_today[OF Cons.prems(3) c]
  have "fold (\<lambda>(w, amb) (s, outs). case birthday_cron_notify w amb today s of
                                   (s', outs') \<Rightarrow> (s', outs @ outs')) runs (s1, outs0 @ o1) = (st', outs)"
    using Cons.prems(1) by (simp add: run c)
  moreover have "\<forall>(r, out) \<in> set (outs0 @ o1). pk r \<noteq> k"
    using Cons.prems(2) n(2) by auto
  ultimately show ?case using Cons.IH n(1) by blast
qed

lemma filter_pk_distinct:
  assumes "distinct (map pk xs)" "b \<in> set xs"
  shows "filter (\<lambda>x. pk x = pk b \<and> Q x) xs = (if Q b then [b] else [])"
  using assms
proof (induction xs)
  case Nil
  then show ?case by simp
next
  case (Cons x xs)
  show ?case
  proof (cases "x = b")
    case True
    then have "\<forall>y \<in> set xs. pk y \<noteq> pk b" using Cons.prems(1) by (auto simp: image_iff)
    then have "filter (\<lambda>x. pk x = pk b \<and> Q x) xs = []" by (simp add: filter_empty_conv)
    then show ?thesis using True by simp
  next
    case False
    then have b: "b \<in> set xs" using Cons.prems(2) by simp
    then have "pk x \<noteq> pk b" using Cons.prems(1) by (auto simp: image_iff)
    then show ?thesis using Cons.IH b Cons.prems(1) by simp
  qed
qed

text \<open>
  C2: in a table with one row per primary key, let a sweep on the day \<open>today\<close> send for
  the record \<open>b\<close> and persist \<open>last_notified = now\<close>, an instant at or after the
  midnight of \<open>today\<close>.  Then every row of the key of \<open>b\<close> holds that instant, no row of
  that key is selected on the same day again, no later run of the loop on that day makes an
  attempt for it, and over all these runs exactly one notification is sent for it.
\<close>

theorem notify_once_per_day:
  assumes d: "distinct (map pk st)"
    and run1: "birthday_cron_notify w amb today st = (st1, outs1)"
    and sent: "(b, Sent channel text) \<in> set outs1"
    and now: "midnight today \<le> amb_now (amb b)"
    and later: "notify_loop runs today st1 = (st2, outs2)"
  shows "(\<forall>r \<in> set st1. pk r = pk b \<longrightarrow> last_notified r = Some (amb_now (amb b)))
       \<and> (\<exists>r \<in> set st1. pk r = pk b)
       \<and> (\<forall>r \<in> set (notify_query today st1). pk r \<noteq> pk b)
       \<and> (\<forall>(r, out) \<in> set outs2. pk r \<noteq> pk b)
       \<and> length (filter (\<lambda>(r, out). pk r = pk b \<and> is_Sent out) (outs1 @ outs2)) = 1"
proof -
  let ?sel = "notify_query today st"
  let ?out = "\<lambda>x. snd (try_notify w (amb x) x today [])"
  let ?upd = "\<lambda>row. row\<lparr>last_notified := Some (amb_now (amb b)), date_updated := amb_now (amb b)\<rparr>"
  from run1 have st1: "st1 = marks w amb today ?sel st"
    and outs1: "outs1 = map (\<lambda>x. (x, ?out x)) ?sel"
    by (simp_all add: cron_notify_eq)
  from sent have b_sel: "b \<in> set ?sel" and out_b: "?out b = Sent channel text"
    by (auto simp: outs1)
  have b_st: "b \<in> set st" using b_sel by (simp add: notify_query_def)
  have d_sel: "distinct (map pk ?sel)"
    using d by (simp add: notify_query_def distinct_map_filter)
  have rows: "rows_of (pk b) st1 = map ?upd (rows_of (pk b) st)"
    unfolding st1 using rows_of_marks_sent[OF b_sel d_sel] out_b by simp
  have c1: "\<forall>r \<in> set st1. pk r = pk b \<longrightarrow> last_notified r = Some (amb_now (amb b))"
  proof (intro ballI impI)
    fix r assume "r \<in> set st1" "pk r = pk b"
    then have "r \<in> set (rows_of (pk b) st1)" by (simp add: rows_of_def)
    then show "last_notified r = Some (amb_now (amb b))" by (auto simp: rows)
  qed
  have "b \<in> set (rows_of (pk b) st)" using b_st by (simp add: rows_of_def)
  then have "?upd b \<in> set (rows_of (pk b) st1)" by (simp add: rows)
  then have c2: "\<exists>r \<in> set st1. pk r = pk b" by (auto simp: rows_of_def)
  have nt: "notified_today today (pk b) st1"
    using now by (simp add: notified_today_def rows list_all_iff)
  have c3: "\<forall>r \<in> set (notify_query today st1). pk r \<noteq> pk b"
    using notified_today_not_selected[OF nt] by blast
  have c4: "\<forall>(r, out) \<in> set outs2. pk r \<noteq> pk b"
    using notify_loop_notified_today[OF nt, of runs "[]" st2 outs2] later
    by (simp add: notify_loop_def)
  have f1: "filter (\<lambda>(r, out). pk r = pk b \<and> is_Sent out) outs1 = [(b, ?out b)]"
    using filter_pk_distinct[OF d_sel b_sel, of "\<lambda>x. is_Sent (?out x)"] out_b
    by (simp add: outs1 filter_map comp_def)
  have f2: "filter (\<lambda>(r, out). pk r = pk b \<and> is_Sent out) outs2 = []"
    using c4 by (auto simp: filter_empty_conv)
  show ?thesis using c1 c2 c3 c4 by (simp add: f1 f2)
qed

lemma midnight_2024_1_1: "midnight (Date 2024 1 1) = 63839664000000000"
  by (simp add: midnight_def ymd2ord_def days_before_year_def days_before_month_def day_us_def)

text \<open>
  The record of one member, born on 1 January, on 1 January 2024: the first sweep sends and
  marks the row, the query then selects nothing, and the next run sends nothing.
\<close>

theorem notify_once_per_day_witness:
  "birthday_cron_notify
     \<lparr>get_guild = (\<lambda>i. if i = 1 then Some \<lparr>system_channel = Some 9,
                        get_member = (\<lambda>u. if u = 1 then Some ''<@1>'' else None)\<rparr> else None),
      send_ok = (\<lambda>c. True), relativedelta_years = (\<lambda>a b. d_year a - d_year b)\<rparr>
     (\<lambda>b. \<lparr>amb_now = 63839667600000000, amb_heading = 0, amb_content = ''Don't die.''\<rparr>)
     (Date 2024 1 1)
     [\<lparr>user_id = 1, guild_id = 1, year = None, month = 1, day = 1,
       last_notified = None, enabled = True, date_created = 0, date_updated = 0\<rparr>]
   = ([\<lparr>user_id = 1, guild_id = 1, year = None, month = 1, day = 1,
        last_notified = Some 63839667600000000, enabled = True, date_created = 0,
        date_updated = 63839667600000000\<rparr>],
      [(\<lparr>user_id = 1, guild_id = 1, year = None, month = 1, day = 1,
         last_notified = None, enabled = True, date_created = 0, date_updated = 0\<rparr>,
        Sent 9 (''**Happy  birthday, <@1>! :tada:**'' @ [CHR 0x0A, CHR 0x0A] @ ''Don't die.''))])
   \<and> notify_query (Date 2024 1 1)
       [\<lparr>user_id = 1, guild_id = 1, year = None, month = 1, day = 1,
        last_notified = Some 63839667600000000, enabled = True, date_created = 0,
        date_updated = 63839667600000000\<rparr>] = []
   \<and> notify_loop
       [(\<lparr>get_guild = (\<lambda>i. if i = 1 then Some \<lparr>system_channel = Some 9,
                        get_member = (\<lambda>u. if u = 1 then Some ''<@1>'' else None)\<rparr> else None),
          send_ok = (\<lambda>c. True), relativedelta_years = (\<lambda>a b. d_year a - d_year b)\<rparr>,
         (\<lambda>b. \<lparr>amb_now = 63839682000000000, amb_heading = 1, amb_content = ''Don't die.''\<rparr>))]
       (Date 2024 1 1)
       [\<lparr>user_id = 1, guild_id = 1, year = None, month = 1, day = 1,
        last_notified = Some 63839667600000000, enabled = True, date_created = 0,
        date_updated = 63839667600000000\<rparr>]
     = ([\<lparr>user_id = 1, guild_id = 1, year = None, month = 1, day = 1,
        last_notified = Some 63839667600000000, enabled = True, date_created = 0,
        date_updated = 63839667600000000\<rparr>], [])"
proof -
  let ?g = "\<lparr>system_channel = Some 9,
             get_member = (\<lambda>u. if u = (1::int) then Some ''<@1>'' else None)\<rparr>"
  let ?w = "\<lparr>get_guild = (\<lambda>i. if i = (1::int) then Some ?g else None),
             send_ok = (\<lambda>c. True), relativedelta_years = (\<lambda>a b. d_year a - d_year b)\<rparr>"
  let ?a = "\<lambda>b::Birthday. \<lparr>amb_now = 63839667600000000, amb_heading = 0,
                               amb_content = ''Don't die.''\<rparr>"
  let ?a2 = "\<lambda>b::Birthday. \<lparr>amb_now = 63839682000000000, amb_heading = 1,
                               amb_content = ''Don't die.''\<rparr>"
  let ?r = "\<lparr>user_id = 1, guild_id = 1, year = None, month = 1, day = 1,
       last_notified = None, enabled = True, date_created = 0, date_updated = 0\<rparr>"
  let ?r' = "\<lparr>user_id = 1, guild_id = 1, year = None, month = 1, day = 1,
        last_notified = Some 63839667600000000, enabled = True, date_created = 0,
        date_updated = 63839667600000000\<rparr>"
  let ?text = "''**Happy  birthday, <@1>! :tada:**'' @ [CHR 0x0A, CHR 0x0A] @ ''Don't die.''"
  have d: "distinct (map pk [?r])" by simp
  have q: "notify_query (Date 2024 1 1) [?r] = [?r]"
    by (simp add: notify_query_def)
  have run1: "birthday_cron_notify ?w ?a (Date 2024 1 1) [?r] = ([?r'], [(?r, Sent 9 ?text)])"
    by (simp add: birthday_cron_notify_def q try_notify_def BIRTHDAY_MESSAGES_def py_format_def
        update_fields_def Manager_update_def BaseModel_update_def pk_def)
  have sent: "(?r, Sent 9 ?text) \<in> set [(?r, Sent 9 ?text)]" by simp
  have now: "midnight (Date 2024 1 1) \<le> amb_now (?a ?r)" by (simp add: midnight_2024_1_1)
  obtain st2 outs2 where later: "notify_loop [(?w, ?a2)] (Date 2024 1 1) [?r'] = (st2, outs2)"
    by (cases "notify_loop [(?w, ?a2)] (Date 2024 1 1) [?r']")
  note t = notify_once_per_day[OF d run1 sent now later]
  from t have q': "notify_query (Date 2024 1 1) [?r'] = []"
    by (simp add: notify_query_def midnight_2024_1_1)
  then have "notify_loop [(?w, ?a2)] (Date 2024 1 1) [?r'] = ([?r'], [])"
    by (simp add: notify_loop_def birthday_cron_notify_def)
  with run1 q' show ?thesis by simp
qed

section \<open>Ordinals in the congratulation (C8)\<close>

lemma mod10_cases:
  fixes n :: int
  obtains "n mod 10 = 0" | "n mod 10 = 1" | "n mod 10 = 2" | "n mod 10 = 3" | "n mod 10 = 4"
    | "n mod 10 = 5" | "n mod 10 = 6" | "n mod 10 = 7" | "n mod 10 = 8" | "n mod 10 = 9"
proof -
  have "0 \<le> n mod 10" "n mod 10 < 10" by simp_all
  then show ?thesis using that by atomize_elim arith
qed

lemma ordinal_eq:
  "ordinal n = show_int n @
     (if n mod 10 = 1 then ''st'' else if n mod 10 = 2 then ''nd''
      else if n mod 10 = 3 then ''rd'' else ''th'')"
  by (cases n rule: mod10_cases) (simp_all add: ordinal_def ORDINAL_WORDS_def)

lemma show_int_34: "show_int 34 = ''34''"
  by (simp add: show_int_def show_nat.simps digit_char_def)

lemma ordinal_34: "ordinal 34 = ''34th''"
  by (simp add: ordinal_eq show_int_34)

lemma headings:
  "py_format (BIRTHDAY_MESSAGES ! (k mod length BIRTHDAY_MESSAGES)) [(''day'', dy), (''name'', mention)]
   = Inr ([''Happy '' @ dy @ ''birthday, '' @ mention @ ''! :tada:'',
           ''It's '' @ mention @ '''s '' @ dy @ ''birthday today! Congratulations! :tada:'',
           ''Oh look, it's '' @ mention @ '''s '' @ dy @ ''birthday! Congratz! :tada:'',
           ''Happy '' @ dy @ ''birthday to you, '' @ mention @ ''! :tada:''] ! (k mod 4))"
proof -
  have "k mod 4 < 4" by simp
  then consider "k mod 4 = 0" | "k mod 4 = 1" | "k mod 4 = 2" | "k mod 4 = 3" by linarith
  then show ?thesis
    by cases (simp_all add: BIRTHDAY_MESSAGES_def py_format_def)
qed

lemma try_notify_sent:
  fixes w :: world and amb :: ambient and b :: Birthday and g :: guild
  assumes "get_guild w (guild_id b) = Some g" "system_channel g = Some channel"
    "get_member g (user_id b) = Some mention" "year b \<noteq> None" "year b \<noteq> Some 0"
    "mk_date (the (year b)) (month b) (day b) = Inr bd" "send_ok w channel"
  shows "snd (try_notify w amb b today st) =
     Sent channel (''**'' @
       [''Happy '' @ ordinal (relativedelta_years w today bd) @ '' birthday, '' @ mention @ ''! :tada:'',
        ''It's '' @ mention @ '''s '' @ ordinal (relativedelta_years w today bd) @ '' birthday today! Congratulations! :tada:'',
        ''Oh look, it's '' @ mention @ '''s '' @ ordinal (relativedelta_years w today bd) @ '' birthday! Congratz! :tada:'',
        ''Happy '' @ ordinal (relativedelta_years w today bd) @ '' birthday to you, '' @ mention @ ''! :tada:'']
         ! (amb_heading amb mod 4) @ ''**'' @ [CHR 0x0A, CHR 0x0A] @ amb_content amb)"
proof -
  have "amb_heading amb mod 4 < 4" by simp
  then consider "amb_heading amb mod 4 = 0" | "amb_heading amb mod 4 = 1"
    | "amb_heading amb mod 4 = 2" | "amb_heading amb mod 4 = 3" by linarith
  then show ?thesis using assms
    by cases (simp_all add: try_notify_def headings update_fields_def Let_def)
qed

text \<open>
  C8: \<open>ordinal n\<close> is the decimal numeral of \<open>n\<close> followed by the last two characters
  of the word of its last digit, that is \<open>st\<close>, \<open>nd\<close>, \<open>rd\<close> for 1, 2, 3 and \<open>th\<close>
  otherwise, with no special case for 11, 12, 13; \<open>ordinal 34\<close> is \<open>34th\<close>; and an
  attempt that resolves guild, channel and member for a record whose civil age is 34
  sends one of the four headings with \<open>34th\<close> in it.
\<close>

theorem ordinal_suffix_and_message:
  "ordinal n = show_int n @
     (if n mod 10 = 1 then ''st'' else if n mod 10 = 2 then ''nd''
      else if n mod 10 = 3 then ''rd'' else ''th'')
   \<and> ordinal 34 = ''34th''
   \<and> (\<forall>(w::world) (amb::ambient) (b::Birthday) today st (g::guild) channel mention bd.
        get_guild w (guild_id b) = Some g \<and> system_channel g = Some channel \<and>
        get_member g (user_id b) = Some mention \<and> year b \<noteq> None \<and> year b \<noteq> Some 0 \<and>
        mk_date (the (year b)) (month b) (day b) = Inr bd \<and> send_ok w channel \<and>
        relativedelta_years w today bd = 34
        \<longrightarrow> snd (try_notify w amb b today st) =
              Sent channel (''**'' @
                [''Happy 34th birthday, '' @ mention @ ''! :tada:'',
                 ''It's '' @ mention @ '''s 34th birthday today! Congratulations! :tada:'',
                 ''Oh look, it's '' @ mention @ '''s 34th birthday! Congratz! :tada:'',
                 ''Happy 34th birthday to you, '' @ mention @ ''! :tada:'']
                  ! (amb_heading amb mod 4) @ ''**'' @ [CHR 0x0A, CHR 0x0A] @ amb_content amb))"
proof (intro conjI allI impI)
  show "ordinal n = show_int n @
     (if n mod 10 = 1 then ''st'' else if n mod 10 = 2 then ''nd''
      else if n mod 10 = 3 then ''rd'' else ''th'')"
    by (rule ordinal_eq)
  show "ordinal 34 = ''34th''" by (rule ordinal_34)
next
  fix w :: world and amb :: ambient and b :: Birthday and today st and g :: guild
    and channel mention bd
  assume h: "get_guild w (guild_id b) = Some g \<and> system_channel g = Some channel \<and>
        get_member g (user_id b) = Some mention \<and> year b \<noteq> None \<and> year b \<noteq> Some 0 \<and>
        mk_date (the (year b)) (month b) (day b) = Inr bd \<and> send_ok w channel \<and>
        relativedelta_years w today bd = 34"
  then have "snd (try_notify w amb b today st) =
     Sent channel (''**'' @
       [''Happy '' @ ordinal 34 @ '' birthday, '' @ mention @ ''! :tada:'',
        ''It's '' @ mention @ '''s '' @ ordinal 34 @ '' birthday today! Congratulations! :tada:'',
        ''Oh look, it's '' @ mention @ '''s '' @ ordinal 34 @ '' birthday! Congratz! :tada:'',
        ''Happy '' @ ordinal 34 @ '' birthday to you, '' @ mention @ ''! :tada:'']
         ! (amb_heading amb mod 4) @ ''**'' @ [CHR 0x0A, CHR 0x0A] @ amb_content amb)"
    using try_notify_sent[of w b g channel mention bd amb today st] by simp
  then show "snd (try_notify w amb b today st) =
              Sent channel (''**'' @
                [''Happy 34th birthday, '' @ mention @ ''! :tada:'',
                 ''It's '' @ mention @ '''s 34th birthday today! Congratulations! :tada:'',
                 ''Oh look, it's '' @ mention @ '''s 34th birthday! Congratz! :tada:'',
                 ''Happy 34th birthday to you, '' @ mention @ ''! :tada:'']
                  ! (amb_heading amb mod 4) @ ''**'' @ [CHR 0x0A, CHR 0x0A] @ amb_content amb)"
    by (simp add: ordinal_34)
qed

text \<open>
  The teens are not special: 11 gives \<open>11st\<close>.  A member born on 14.02.1990 is
  congratulated on 14.02.2024 on the 34th birthday.
\<close>

theorem ordinal_suffix_and_message_witness:
  "ordinal 11 = ''11st''
   \<and> mk_date 1990 2 14 = Inr (Date 1990 2 14)
   \<and> snd (try_notify
        \<lparr>get_guild = (\<lambda>i. if i = 1 then Some \<lparr>system_channel = Some 9,
                        get_member = (\<lambda>u. if u = 1 then Some ''<@1>'' else None)\<rparr> else None),
         send_ok = (\<lambda>c. True),
         relativedelta_years = (\<lambda>a b. d_year a - d_year b)\<rparr>
        \<lparr>amb_now = 0, amb_heading = 0, amb_content = ''Imagine being born.''\<rparr>
        \<lparr>user_id = 1, guild_id = 1, year = Some 1990, month = 2, day = 14,
          last_notified = None, enabled = True, date_created = 0, date_updated = 0\<rparr>
        (Date 2024 2 14) [])
      = Sent 9 (''**Happy 34th birthday, <@1>! :tada:**'' @ [CHR 0x0A, CHR 0x0A]
                @ ''Imagine being born.'')"
proof -
  let ?g = "\<lparr>system_channel = Some 9,
             get_member = (\<lambda>u. if u = (1::int) then Some ''<@1>'' else None)\<rparr>"
  let ?w = "\<lparr>get_guild = (\<lambda>i. if i = (1::int) then Some ?g else None),
             send_ok = (\<lambda>c. True),
             relativedelta_years = (\<lambda>a b. d_year a - d_year b)\<rparr>"
  let ?a = "\<lparr>amb_now = 0, amb_heading = 0, amb_content = ''Imagine being born.''\<rparr>"
  let ?b = "\<lparr>user_id = 1, guild_id = 1, year = Some 1990, month = 2, day = 14,
          last_notified = None, enabled = True, date_created = 0, date_updated = 0\<rparr>"
  have m: "mk_date 1990 2 14 = Inr (Date 1990 2 14)"
    by (simp add: mk_date_def days_in_month_def)
  have s: "show_int 11 = ''11''"
    by (simp add: show_int_def show_nat.simps digit_char_def)
  note t = ordinal_suffix_and_message[of 11]
  from t have o: "ordinal 11 = ''11st''" by (simp add: s)
  note u = t[THEN conjunct2, THEN conjunct2, rule_format,
             of ?w ?b ?g 9 "''<@1>''" "Date 1990 2 14" "Date 2024 2 14" ?a "[]"]
  have "snd (try_notify ?w ?a ?b (Date 2024 2 14) [])
      = Sent 9 (''**Happy 34th birthday, <@1>! :tada:**'' @ [CHR 0x0A, CHR 0x0A]
                @ ''Imagine being born.'')"
    using u by (simp add: m)
  with o m show ?thesis by simp
qed

section \<open>Matching and parsing the textual form\<close>

lemma fm_Seq:
  assumes "fm r1 s = Some (g, rest)" "fm r2 rest = Some (h, rest')"
  shows "fm (Seq r1 r2) s = Some (g @ h, rest')"
proof -
  from assms(1) obtain T where 1: "rmatch r1 s = (g, rest) # T"
    by (auto simp: fm_def split: list.splits)
  from assms(2) obtain T' where 2: "rmatch r2 rest = (h, rest') # T'"
    by (auto simp: fm_def split: list.splits)
  show ?thesis by (simp add: fm_def 1 2)
qed

lemma fm_Lit: "fm (Lit c) (c # s) = Some ([], s)"
  by (simp add: fm_def)

lemma fm_Eps: "fm Eps s = Some ([], s)"
  by (simp add: fm_def)

lemma take_diff_2 [simp]: "take (Suc (Suc (length r)) - length r) (a # b # r) = [a, b]"
  by (simp add: Suc_diff_le)

lemma zfill_2_small: "0 \<le> n \<Longrightarrow> n < 10 \<Longrightarrow> zfill 2 n = [CHR ''0'', digit_char (nat n)]"
  by (simp add: zfill_def show_nat_1 replicate_small)

lemma zfill_2_big: "10 \<le> n \<Longrightarrow> n < 100 \<Longrightarrow> zfill 2 n = [digit_char (nat n div 10), digit_char (nat n)]"
  by (simp add: zfill_def show_nat_2)

text \<open>
  A day from 1 to 31 and a month from 1 to 12, written with two digits, are read back by
  the directives \<open>%d\<close> and \<open>%m\<close> whatever follows them.
\<close>

lemma day_cases:
  fixes n :: int
  assumes "1 \<le> n" "n \<le> 31"
  obtains "n = 1" | "n = 2" | "n = 3" | "n = 4" | "n = 5" | "n = 6" | "n = 7" | "n = 8" |
    "n = 9" | "n = 10" | "n = 11" | "n = 12" | "n = 13" | "n = 14" | "n = 15" | "n = 16" |
    "n = 17" | "n = 18" | "n = 19" | "n = 20" | "n = 21" | "n = 22" | "n = 23" | "n = 24" |
    "n = 25" | "n = 26" | "n = 27" | "n = 28" | "n = 29" | "n = 30" | "n = 31"
  using assms by atomize_elim arith

lemma month_cases:
  fixes n :: int
  assumes "1 \<le> n" "n \<le> 12"
  obtains "n = 1" | "n = 2" | "n = 3" | "n = 4" | "n = 5" | "n = 6" | "n = 7" | "n = 8" |
    "n = 9" | "n = 10" | "n = 11" | "n = 12"
  using assms by atomize_elim arith

lemma day_directive:
  assumes "1 \<le> n" "n \<le> 31"
  shows "fm (the (directive CHR ''d'')) (zfill 2 n @ rest) = Some ([(''d'', zfill 2 n)], rest)
         \<and> int_of_digits (zfill 2 n) = n"
  using assms
  by (cases n rule: day_cases)
     (simp_all add: fm_def directive_def zfill_2_small zfill_2_big digit_char_def
        int_of_digits_def strip_def digit_val_def)

lemma month_directive:
  assumes "1 \<le> n" "n \<le> 12"
  shows "fm (the (directive CHR ''m'')) (zfill 2 n @ rest) = Some ([(''m'', zfill 2 n)], rest)
         \<and> int_of_digits (zfill 2 n) = n"
  using assms
  by (cases n rule: month_cases)
     (simp_all add: fm_def directive_def zfill_2_small zfill_2_big digit_char_def
        int_of_digits_def strip_def digit_val_def)

lemma day_digits:
  assumes "1 \<le> n" "n \<le> 31"
  shows "\<exists>a b. zfill 2 n = [a, b] \<and> a \<in> set ''0123'' \<and> is_digit b"
  using assms
  by (cases n rule: day_cases)
     (simp_all add: zfill_2_small zfill_2_big digit_char_def)

lemma month_digits:
  assumes "1 \<le> n" "n \<le> 12"
  shows "\<exists>a b. zfill 2 n = [a, b] \<and> a \<in> set ''01'' \<and> is_digit b"
  using assms
  by (cases n rule: month_cases)
     (simp_all add: zfill_2_small zfill_2_big digit_char_def)


text \<open>
  The text \<open>dd.mm.yyyy\<close> is taken by the fourth pattern, the text \<open>dd.mm.\<close> by the
  sixth, which leaves the trailing dot out of the match.
\<close>

lemma first_match_dmY:
  assumes "a \<in> set ''0123''" "is_digit a" "is_digit b" "c \<in> set ''01''" "is_digit c" "is_digit d"
    "is_digit y1" "is_digit y2" "is_digit y3" "is_digit y4"
  shows "first_match PATTERNS_DATE ([a, b] @ ''.'' @ [c, d] @ ''.'' @ [y1, y2, y3, y4])
         = Some ([a, b] @ ''.'' @ [c, d] @ ''.'' @ [y1, y2, y3, y4], ''%d.%m.%Y'')"
  using assms by (auto simp: PATTERNS_DATE_def re_match_def)

lemma first_match_dm_dot:
  assumes "a \<in> set ''0123''" "is_digit a" "is_digit b" "c \<in> set ''01''" "is_digit c" "is_digit d"
  shows "first_match PATTERNS_DATE ([a, b] @ ''.'' @ [c, d] @ ''.'')
         = Some ([a, b] @ ''.'' @ [c, d], ''%d.%m'')"
  using assms by (auto simp: PATTERNS_DATE_def re_match_def)

lemma strip_digits:
  assumes "is_digit a" "is_digit z"
  shows "strip (a # s @ [z]) = a # s @ [z]"
  using assms by (simp add: strip_def)


lemma format_regex_dmY:
  "format_regex ''%d.%m.%Y'' =
     Some [the (directive CHR ''d''), Lit CHR ''.'', the (directive CHR ''m''), Lit CHR ''.'',
           the (directive CHR ''Y'')]"
  by (simp add: directive_def)

lemma format_regex_dm_Y:
  "format_regex ''%d.%m %Y'' =
     Some [the (directive CHR ''d''), Lit CHR ''.'', the (directive CHR ''m''), Spaces,
           the (directive CHR ''Y'')]"
  by (simp add: directive_def)

lemma fm_year:
  assumes "is_digit y1" "is_digit y2" "is_digit y3" "is_digit y4"
  shows "fm (Seq (the (directive CHR ''Y'')) Eps) [y1, y2, y3, y4]
         = Some ([(''Y'', [y1, y2, y3, y4])], [])"
  using assms by (simp add: fm_def directive_def)

lemma fm_space_year:
  assumes "is_digit y1" "is_digit y2" "is_digit y3" "is_digit y4"
  shows "fm (Seq Spaces (Seq (the (directive CHR ''Y'')) Eps)) (CHR '' '' # [y1, y2, y3, y4])
         = Some ([(''Y'', [y1, y2, y3, y4])], [])"
  using assms by (simp add: fm_def directive_def)

lemma strptime_fm:
  assumes "format_regex fmt = Some rs" "fm (seqs rs) data = Some (g, [])"
  shows "strptime data fmt =
     mk_date (case group_int g ''y'' of
                Some v \<Rightarrow> (if v \<le> 68 then v + 2000 else v + 1900)
              | None \<Rightarrow> (case group_int g ''Y'' of Some v \<Rightarrow> v | None \<Rightarrow> 1900))
             (case group_int g ''m'' of Some v \<Rightarrow> v | None \<Rightarrow> 1)
             (case group_int g ''d'' of Some v \<Rightarrow> v | None \<Rightarrow> 1)"
proof -
  from assms(2) obtain T where "rmatch (seqs rs) data = (g, []) # T"
    by (auto simp: fm_def split: list.splits)
  then show ?thesis using assms(1) by (simp add: strptime_def)
qed

lemma strptime_dmY:
  assumes "1 \<le> dd" "dd \<le> 31" "1 \<le> mm" "mm \<le> 12"
    and y: "is_digit y1" "is_digit y2" "is_digit y3" "is_digit y4"
  shows "strptime (zfill 2 dd @ ''.'' @ zfill 2 mm @ ''.'' @ [y1, y2, y3, y4]) ''%d.%m.%Y''
         = mk_date (int_of_digits [y1, y2, y3, y4]) mm dd"
proof -
  note d = day_directive[OF assms(1,2)]
  note m = month_directive[OF assms(3,4)]
  have "fm (seqs [the (directive CHR ''d''), Lit CHR ''.'', the (directive CHR ''m''),
                  Lit CHR ''.'', the (directive CHR ''Y'')])
           (zfill 2 dd @ ''.'' @ zfill 2 mm @ ''.'' @ [y1, y2, y3, y4])
        = Some ([(''d'', zfill 2 dd), (''m'', zfill 2 mm), (''Y'', [y1, y2, y3, y4])], [])"
    using fm_Seq[OF d[THEN conjunct1] fm_Seq[OF fm_Lit fm_Seq[OF m[THEN conjunct1]
            fm_Seq[OF fm_Lit fm_year[OF y]]]]]
    by simp
  from strptime_fm[OF format_regex_dmY this] show ?thesis
    using d m by (simp add: group_int_def)
qed

lemma strptime_dm_Y:
  assumes "1 \<le> dd" "dd \<le> 31" "1 \<le> mm" "mm \<le> 12"
    and y: "is_digit y1" "is_digit y2" "is_digit y3" "is_digit y4"
  shows "strptime ((zfill 2 dd @ ''.'' @ zfill 2 mm) @ CHR '' '' # [y1, y2, y3, y4]) ''%d.%m %Y''
         = mk_date (int_of_digits [y1, y2, y3, y4]) mm dd"
proof -
  note d = day_directive[OF assms(1,2)]
  note m = month_directive[OF assms(3,4)]
  have "fm (seqs [the (directive CHR ''d''), Lit CHR ''.'', the (directive CHR ''m''),
                  Spaces, the (directive CHR ''Y'')])
           ((zfill 2 dd @ ''.'' @ zfill 2 mm) @ CHR '' '' # [y1, y2, y3, y4])
        = Some ([(''d'', zfill 2 dd), (''m'', zfill 2 mm), (''Y'', [y1, y2, y3, y4])], [])"
    using fm_Seq[OF d[THEN conjunct1] fm_Seq[OF fm_Lit fm_Seq[OF m[THEN conjunct1]
            fm_space_year[OF y]]]]
    by simp
  from strptime_fm[OF format_regex_dm_Y this] show ?thesis
    using d m by (simp add: group_int_def)
qed


lemma cls_is_digit: "a \<in> set ''0123'' \<Longrightarrow> is_digit a" "c \<in> set ''01'' \<Longrightarrow> is_digit c"
  by (auto simp: is_digit_def)

lemma parse_dmY:
  assumes dm: "1 \<le> dd" "dd \<le> 31" "1 \<le> mm" "mm \<le> 12"
    and yr: "1 \<le> y" "y \<le> 9999" "pad \<or> 1000 \<le> y"
  shows "parse_date pad' today (zfill 2 dd @ ''.'' @ zfill 2 mm @ ''.'' @ strftime_Y pad y)
     = (case mk_date y mm dd of
          Inl e \<Rightarrow> Inl e
        | Inr d \<Rightarrow> if date_gt d today then Inl (BirthdayParseError MSG_FUTURE)
                   else Inr (Some (d_year d), d_month d, d_day d))"
proof -
  obtain a b where ab: "zfill 2 dd = [a, b]" "a \<in> set ''0123''" "is_digit b"
    using day_digits[OF dm(1,2)] by blast
  obtain c d where cd: "zfill 2 mm = [c, d]" "c \<in> set ''01''" "is_digit d"
    using month_digits[OF dm(3,4)] by blast
  define y1 where "y1 = digit_char (nat y div 1000)"
  define y2 where "y2 = digit_char (nat y div 100)"
  define y3 where "y3 = digit_char (nat y div 10)"
  define y4 where "y4 = digit_char (nat y)"
  have Y: "strftime_Y pad y = [y1, y2, y3, y4]"
    by (simp add: strftime_Y_4[OF yr] y1_def y2_def y3_def y4_def)
  have dg: "is_digit y1" "is_digit y2" "is_digit y3" "is_digit y4"
    by (simp_all add: y1_def y2_def y3_def y4_def)
  have n: "nat y < 10000" using yr by simp
  have v: "int_of_digits [y1, y2, y3, y4] = y"
    using int_of_digits_4[OF n] yr by (simp add: y1_def y2_def y3_def y4_def)
  let ?s = "[a, b] @ ''.'' @ [c, d] @ ''.'' @ [y1, y2, y3, y4]"
  have st: "strip ?s = ?s"
    using strip_digits[of a y4 "[b] @ ''.'' @ [c, d] @ ''.'' @ [y1, y2, y3]"]
      cls_is_digit(1)[OF ab(2)] dg(4) by simp
  have fmt: "first_match PATTERNS_DATE ?s = Some (?s, ''%d.%m.%Y'')"
    by (rule first_match_dmY[OF ab(2) cls_is_digit(1)[OF ab(2)] ab(3) cd(2)
          cls_is_digit(2)[OF cd(2)] cd(3) dg])
  have sp: "strptime ?s ''%d.%m.%Y'' = mk_date y mm dd"
    using strptime_dmY[OF dm dg] by (simp add: ab(1) cd(1) v)
  show ?thesis
    using st fmt sp by (simp add: ab(1) cd(1) Y parse_date_def split: sum.splits)
qed

lemma parse_dm_dot:
  assumes dm: "1 \<le> dd" "dd \<le> 31" "1 \<le> mm" "mm \<le> 12"
    and yr: "1 \<le> d_year today" "d_year today \<le> 9999" "pad \<or> 1000 \<le> d_year today"
  shows "parse_date pad today (zfill 2 dd @ ''.'' @ zfill 2 mm @ ''.'')
     = (case mk_date (d_year today) mm dd of
          Inl e \<Rightarrow> Inl e
        | Inr d \<Rightarrow> Inr (None, d_month d, d_day d))"
proof -
  obtain a b where ab: "zfill 2 dd = [a, b]" "a \<in> set ''0123''" "is_digit b"
    using day_digits[OF dm(1,2)] by blast
  obtain c d where cd: "zfill 2 mm = [c, d]" "c \<in> set ''01''" "is_digit d"
    using month_digits[OF dm(3,4)] by blast
  define y1 where "y1 = digit_char (nat (d_year today) div 1000)"
  define y2 where "y2 = digit_char (nat (d_year today) div 100)"
  define y3 where "y3 = digit_char (nat (d_year today) div 10)"
  define y4 where "y4 = digit_char (nat (d_year today))"
  have Y: "strftime_Y pad (d_year today) = [y1, y2, y3, y4]"
    by (simp add: strftime_Y_4[OF yr] y1_def y2_def y3_def y4_def)
  have dg: "is_digit y1" "is_digit y2" "is_digit y3" "is_digit y4"
    by (simp_all add: y1_def y2_def y3_def y4_def)
  have n: "nat (d_year today) < 10000" using yr by simp
  have v: "int_of_digits [y1, y2, y3, y4] = d_year today"
    using int_of_digits_4[OF n] yr by (simp add: y1_def y2_def y3_def y4_def)
  let ?s = "[a, b] @ ''.'' @ [c, d] @ ''.''"
  have st: "strip ?s = ?s"
    using cls_is_digit(1)[OF ab(2)] by (simp add: strip_def)
  have fmt: "first_match PATTERNS_DATE ?s = Some ([a, b] @ ''.'' @ [c, d], ''%d.%m'')"
    by (rule first_match_dm_dot[OF ab(2) cls_is_digit(1)[OF ab(2)] ab(3) cd(2)
          cls_is_digit(2)[OF cd(2)] cd(3)])
  have sp: "strptime (([a, b] @ ''.'' @ [c, d]) @ CHR '' '' # [y1, y2, y3, y4]) ''%d.%m %Y''
            = mk_date (d_year today) mm dd"
    using strptime_dm_Y[OF dm dg] by (simp add: ab(1) cd(1) v)
  have sp': "strptime (a # b # CHR ''.'' # c # d # CHR '' '' # [y1, y2, y3, y4]) ''%d.%m %Y''
            = mk_date (d_year today) mm dd"
    using sp by simp
  show ?thesis
    using st fmt sp' by (simp add: ab(1) cd(1) Y parse_date_def split: sum.splits)
qed

section \<open>The two errors of the parser (C3)\<close>

lemma not_digit_neq:
  assumes "\<not> is_digit c"
  shows "c \<noteq> CHR ''0''" "c \<noteq> CHR ''1''" "c \<noteq> CHR ''2''" "c \<noteq> CHR ''3''"
  using assms by (auto simp: is_digit_def)

lemma first_match_non_digit:
  assumes "\<not> is_digit c"
  shows "first_match PATTERNS_DATE (c # rest) = None"
  using assms not_digit_neq[OF assms] by (simp add: PATTERNS_DATE_def re_match_def)

lemma first_match_empty: "first_match PATTERNS_DATE [] = None"
  by (simp add: PATTERNS_DATE_def re_match_def)

lemma strip_head:
  "(dropWhile is_space text = [] \<and> strip text = [])
   \<or> (\<exists>c cs rest. dropWhile is_space text = c # cs \<and> strip text = c # rest)"
proof (cases "dropWhile is_space text")
  case Nil
  show ?thesis unfolding strip_def Nil by simp
next
  case (Cons c cs)
  then have nc: "\<not> is_space c" using hd_dropWhile[of is_space "text"] by auto
  have "rev (dropWhile is_space (rev (c # cs))) = c # rev (dropWhile is_space (rev cs))"
    using nc by (simp add: dropWhile_append)
  then show ?thesis using Cons by (simp add: strip_def)
qed

lemma mk_date_Inr:
  assumes "mk_date y m d = Inr bd"
  shows "bd = Date y m d" "1 \<le> y" "y \<le> 9999" "1 \<le> m" "m \<le> 12" "1 \<le> d" "d \<le> 31"
proof -
  from assms have r: "1 \<le> y" "y \<le> 9999" "1 \<le> m" "m \<le> 12" "1 \<le> d"
      "d \<le> days_in_month y m" "bd = Date y m d"
    by (auto simp: mk_date_def split: if_splits)
  have "days_in_month y m \<le> 31" by (simp add: days_in_month_def)
  with r show "bd = Date y m d" "1 \<le> y" "y \<le> 9999" "1 \<le> m" "m \<le> 12" "1 \<le> d" "d \<le> 31"
    by simp_all
qed

lemma mk_date_valid:
  "1 \<le> y \<Longrightarrow> y \<le> 9999 \<Longrightarrow> 1 \<le> m \<Longrightarrow> m \<le> 12 \<Longrightarrow> 1 \<le> d \<Longrightarrow> d \<le> days_in_month y m
   \<Longrightarrow> mk_date y m d = Inr (Date y m d)"
  by (simp add: mk_date_def)

lemma date_gt_irrefl: "\<not> date_gt d d"
  by (simp add: date_gt_def)

text \<open>
  C3, as the code has it: when no pattern matches the stripped text (as when the text is
  blank or its first character after the blanks is not a digit), \<open>parse_date\<close> raises
  \<open>BirthdayParseError\<close> with the message that the birthday cannot be parsed; when the
  first match has a format with a year and \<open>strptime\<close> gives a date after today, it
  raises the same class \<open>BirthdayParseError\<close> with another message, the one about the
  future; when that date is today, it returns the date.  So for every calendar date
  written \<open>dd.mm.yyyy\<close>: after today it is refused as a date in the future, today and
  before it is returned.
\<close>

theorem parse_date_errors:
  "(first_match PATTERNS_DATE (strip text) = None
      \<longrightarrow> parse_date pad today text = Inl (BirthdayParseError MSG_UNPARSABLE))
   \<and> (dropWhile is_space text = []
        \<or> (\<exists>c rest. dropWhile is_space text = c # rest \<and> \<not> is_digit c)
      \<longrightarrow> parse_date pad today text = Inl (BirthdayParseError MSG_UNPARSABLE))
   \<and> (\<forall>m fmt d. first_match PATTERNS_DATE (strip text) = Some (m, fmt)
                 \<and> (contains ''%y'' fmt \<or> contains ''%Y'' fmt) \<and> strptime m fmt = Inr d
        \<longrightarrow> (date_gt d today \<longrightarrow> parse_date pad today text = Inl (BirthdayParseError MSG_FUTURE))
          \<and> (d = today
               \<longrightarrow> parse_date pad today text = Inr (Some (d_year d), d_month d, d_day d)))
   \<and> (\<forall>y m d bd p. mk_date y m d = Inr bd \<and> (p \<or> 1000 \<le> y)
        \<longrightarrow> parse_date pad today (zfill 2 d @ ''.'' @ zfill 2 m @ ''.'' @ strftime_Y p y)
            = (if date_gt bd today then Inl (BirthdayParseError MSG_FUTURE)
               else Inr (Some y, m, d)))
   \<and> MSG_UNPARSABLE \<noteq> MSG_FUTURE
   \<and> class_name (BirthdayParseError MSG_UNPARSABLE) = ''BirthdayParseError''
   \<and> class_name (BirthdayParseError MSG_FUTURE) = ''BirthdayParseError''
   \<and> is_BirthdayParseError (BirthdayParseError MSG_UNPARSABLE)
   \<and> is_BirthdayParseError (BirthdayParseError MSG_FUTURE)"
proof (intro conjI impI allI)
  assume "first_match PATTERNS_DATE (strip text) = None"
  then show "parse_date pad today text = Inl (BirthdayParseError MSG_UNPARSABLE)"
    by (simp add: parse_date_def)
next
  assume nd: "dropWhile is_space text = []
        \<or> (\<exists>c rest. dropWhile is_space text = c # rest \<and> \<not> is_digit c)"
  have "strip text = [] \<or> (\<exists>c rest. strip text = c # rest \<and> \<not> is_digit c)"
    using strip_head[of "text"] nd by (metis list.distinct(1) list.inject)
  then have "first_match PATTERNS_DATE (strip text) = None"
    by (auto simp: first_match_empty first_match_non_digit)
  then show "parse_date pad today text = Inl (BirthdayParseError MSG_UNPARSABLE)"
    by (simp add: parse_date_def)
next
  fix m fmt d
  assume h: "first_match PATTERNS_DATE (strip text) = Some (m, fmt)
             \<and> (contains ''%y'' fmt \<or> contains ''%Y'' fmt) \<and> strptime m fmt = Inr d"
  {
    assume "date_gt d today"
    with h show "parse_date pad today text = Inl (BirthdayParseError MSG_FUTURE)"
      by (auto simp: parse_date_def)
  }
  {
    assume "d = today"
    with h show "parse_date pad today text = Inr (Some (d_year d), d_month d, d_day d)"
      by (auto simp: parse_date_def date_gt_irrefl)
  }
next
  fix y m d bd p
  assume h: "mk_date y m d = Inr bd \<and> (p \<or> 1000 \<le> y)"
  then have mk: "mk_date y m d = Inr bd" by simp
  note r = mk_date_Inr[OF mk]
  have yr: "1 \<le> y" "y \<le> 9999" "p \<or> 1000 \<le> y" using r h by simp_all
  show "parse_date pad today (zfill 2 d @ ''.'' @ zfill 2 m @ ''.'' @ strftime_Y p y)
            = (if date_gt bd today then Inl (BirthdayParseError MSG_FUTURE)
               else Inr (Some y, m, d))"
    using parse_dmY[OF r(6,7,4,5) yr, of pad today] mk r(1) by simp
next
  show "MSG_UNPARSABLE \<noteq> MSG_FUTURE"
    by (simp add: MSG_UNPARSABLE_def MSG_FUTURE_def)
qed simp_all

text \<open>
  C3, as stated, fails: the error for a text that no pattern matches is not distinct in
  kind from the error for a date in the future.  Both are instances of the one class
  \<open>BirthdayParseError\<close>, so that an \<open>except\<close> clause cannot tell them apart.
\<close>

theorem parse_date_errors_counterexample:
  "map_sum class_name id (parse_date False (Date 2024 2 14) ''hello'')
     = Inl ''BirthdayParseError''
   \<and> map_sum class_name id (parse_date False (Date 2024 2 14) ''2024-02-15'')
     = Inl ''BirthdayParseError''
   \<and> class_name (BirthdayParseError MSG_UNPARSABLE) = class_name (BirthdayParseError MSG_FUTURE)"
  by (simp add: parse_eval)

text \<open>
  On 14.02.2024: \<open>hello\<close> cannot be parsed, the day after is in the future, the day
  itself is returned, also behind a no-break space, which \<open>strip\<close> removes.
\<close>

theorem parse_date_errors_witness:
  "parse_date False (Date 2024 2 14) ''hello'' = Inl (BirthdayParseError MSG_UNPARSABLE)
   \<and> parse_date False (Date 2024 2 14) ''2024-02-15'' = Inl (BirthdayParseError MSG_FUTURE)
   \<and> parse_date False (Date 2024 2 14) ''14.02.2024'' = Inr (Some 2024, 2, 14)
   \<and> parse_date False (Date 2024 2 14) (CHR 0xA0 # ''14.02.2024'') = Inr (Some 2024, 2, 14)"
proof -
  have f1: "first_match PATTERNS_DATE (strip ''2024-02-15'') = Some (''2024-02-15'', ''%Y-%m-%d'')"
    by (simp add: PATTERNS_DATE_def re_match_def strip_def)
  have p1: "strptime ''2024-02-15'' ''%Y-%m-%d'' = Inr (Date 2024 2 15)"
    by (simp add: parse_eval)
  have f2: "first_match PATTERNS_DATE (strip ''14.02.2024'') = Some (''14.02.2024'', ''%d.%m.%Y'')"
    by (simp add: PATTERNS_DATE_def re_match_def strip_def)
  have f3: "first_match PATTERNS_DATE (strip (CHR 0xA0 # ''14.02.2024''))
            = Some (''14.02.2024'', ''%d.%m.%Y'')"
    by (simp add: PATTERNS_DATE_def re_match_def strip_def)
  have p2: "strptime ''14.02.2024'' ''%d.%m.%Y'' = Inr (Date 2024 2 14)"
    by (simp add: parse_eval)
  have a: "parse_date False (Date 2024 2 14) ''hello'' = Inl (BirthdayParseError MSG_UNPARSABLE)"
    using parse_date_errors[of "''hello''" False "Date 2024 2 14"] by simp
  have b: "parse_date False (Date 2024 2 14) ''2024-02-15'' = Inl (BirthdayParseError MSG_FUTURE)"
    using parse_date_errors[of "''2024-02-15''" False "Date 2024 2 14"] f1 p1
    by (simp add: date_gt_def)
  have c: "parse_date False (Date 2024 2 14) ''14.02.2024'' = Inr (Some 2024, 2, 14)"
    using parse_date_errors[of "''14.02.2024''" False "Date 2024 2 14"] f2 p2 by simp
  have d: "parse_date False (Date 2024 2 14) (CHR 0xA0 # ''14.02.2024'')
           = Inr (Some 2024, 2, 14)"
    using parse_date_errors[of "CHR 0xA0 # ''14.02.2024''" False "Date 2024 2 14"] f3 p2
    by simp
  from a b c d show ?thesis by simp
qed

section \<open>Dates without a year are checked in the current year (C4)\<close>

lemma first_match_2_14: "first_match PATTERNS_DATE ''2-14'' = Some (''2-14'', ''%m-%d'')"
  by (simp add: PATTERNS_DATE_def re_match_def)

lemma first_match_2_29: "first_match PATTERNS_DATE ''2-29'' = Some (''2-29'', ''%m-%d'')"
  by (simp add: PATTERNS_DATE_def re_match_def)

lemma strptime_2_14:
  assumes "is_digit a" "is_digit b" "is_digit c" "is_digit d"
  shows "strptime (''2-14 '' @ [a, b, c, d]) ''%m-%d %Y'' = mk_date (int_of_digits [a, b, c, d]) 2 14"
  using assms
  by (simp add: strptime_def directive_def group_int_def int_of_digits_def strip_def
      digit_val_def)

lemma strptime_2_29:
  assumes "is_digit a" "is_digit b" "is_digit c" "is_digit d"
  shows "strptime (''2-29 '' @ [a, b, c, d]) ''%m-%d %Y'' = mk_date (int_of_digits [a, b, c, d]) 2 29"
  using assms
  by (simp add: strptime_def directive_def group_int_def int_of_digits_def strip_def
      digit_val_def)

text \<open>
  C4: for every current date (on a platform that does not fill the year with zeros: from
  the year 1000 on), \<open>2-14\<close> parses to \<open>(None, 2, 14)\<close>, and \<open>2-29\<close> parses to
  \<open>(None, 2, 29)\<close> when the current year is a leap year and fails with the
  \<open>ValueError\<close> of \<open>strptime\<close> otherwise.
\<close>

theorem parse_yearless_feb:
  assumes "1 \<le> d_year today" "d_year today \<le> 9999" "pad \<or> 1000 \<le> d_year today"
  shows "parse_date pad today ''2-14'' = Inr (None, 2, 14)
       \<and> parse_date pad today ''2-29'' =
           (if is_leap (d_year today) then Inr (None, 2, 29)
            else Inl (ValueError ''day is out of range for month''))"
proof -
  have n: "nat (d_year today) < 10000" using assms by simp
  have v: "int (nat (d_year today)) = d_year today" using assms by simp
  show ?thesis
    using assms
    by (simp add: parse_date_def strip_def first_match_2_14 first_match_2_29 strftime_Y_4
        strptime_2_14[simplified] strptime_2_29[simplified] int_of_digits_4[OF n] v
        mk_date_def days_in_month_def)
qed

text \<open>The years 2023 and 2024.\<close>

theorem parse_yearless_feb_witness:
  "parse_date False (Date 2023 3 1) ''2-14'' = Inr (None, 2, 14)
   \<and> parse_date False (Date 2024 3 1) ''2-14'' = Inr (None, 2, 14)
   \<and> parse_date False (Date 2024 3 1) ''2-29'' = Inr (None, 2, 29)
   \<and> parse_date False (Date 2023 3 1) ''2-29'' = Inl (ValueError ''day is out of range for month'')"
  using parse_yearless_feb[of "Date 2023 3 1" False] parse_yearless_feb[of "Date 2024 3 1" False]
  by (simp add: is_leap_def)


section \<open>Parsing the textual form of a record (C7)\<close>

text \<open>
  C7, as the code has it.  A record with a year that is a calendar date not after today
  is written \<open>dd.mm.yyyy\<close> (four digits of year: always on a platform that fills with
  zeros, from the year 1000 on elsewhere) and is parsed back to its year, month and day.
  A record without a year is written \<open>dd.mm.\<close> and is parsed back to \<open>None\<close>, month
  and day when its month and day make a date of the current year.
\<close>

theorem str_parse_roundtrip:
  "(\<forall>y bd. year b = Some y \<and> mk_date y (month b) (day b) = Inr bd \<and> \<not> date_gt bd today
            \<and> (pad \<or> 1000 \<le> y)
      \<longrightarrow> str_Birthday pad b =
            Inr (zfill 2 (day b) @ ''.'' @ zfill 2 (month b) @ ''.'' @ strftime_Y pad y)
        \<and> length (strftime_Y pad y) = 4
        \<and> parse_date pad today
             (zfill 2 (day b) @ ''.'' @ zfill 2 (month b) @ ''.'' @ strftime_Y pad y)
            = Inr (Some y, month b, day b))
   \<and> (year b = None \<and> 1 \<le> month b \<and> month b \<le> 12 \<and> 1 \<le> day b
        \<and> day b \<le> days_in_month (d_year today) (month b)
        \<and> 1 \<le> d_year today \<and> d_year today \<le> 9999 \<and> (pad \<or> 1000 \<le> d_year today)
      \<longrightarrow> str_Birthday pad b = Inr (zfill 2 (day b) @ ''.'' @ zfill 2 (month b) @ ''.'')
        \<and> parse_date pad today (zfill 2 (day b) @ ''.'' @ zfill 2 (month b) @ ''.'')
            = Inr (None, month b, day b))"
proof (intro conjI allI impI)
  fix y bd
  assume h: "year b = Some y \<and> mk_date y (month b) (day b) = Inr bd \<and> \<not> date_gt bd today
            \<and> (pad \<or> 1000 \<le> y)"
  then have mk: "mk_date y (month b) (day b) = Inr bd" by simp
  note r = mk_date_Inr[OF mk]
  have yr: "1 \<le> y" "y \<le> 9999" "pad \<or> 1000 \<le> y" using r h by simp_all
  show "str_Birthday pad b =
            Inr (zfill 2 (day b) @ ''.'' @ zfill 2 (month b) @ ''.'' @ strftime_Y pad y)"
    using h r by (simp add: str_Birthday_def strftime_dmY_def)
  show "length (strftime_Y pad y) = 4"
    by (simp add: strftime_Y_4[OF yr])
  show "parse_date pad today
             (zfill 2 (day b) @ ''.'' @ zfill 2 (month b) @ ''.'' @ strftime_Y pad y)
            = Inr (Some y, month b, day b)"
    using parse_dmY[OF r(6,7,4,5) yr, of pad today] h r(1) by simp
next
  assume h: "year b = None \<and> 1 \<le> month b \<and> month b \<le> 12 \<and> 1 \<le> day b
        \<and> day b \<le> days_in_month (d_year today) (month b)
        \<and> 1 \<le> d_year today \<and> d_year today \<le> 9999 \<and> (pad \<or> 1000 \<le> d_year today)"
  then show "str_Birthday pad b = Inr (zfill 2 (day b) @ ''.'' @ zfill 2 (month b) @ ''.'')"
    by (simp add: str_Birthday_def)
  have mk: "mk_date (d_year today) (month b) (day b) = Inr (Date (d_year today) (month b) (day b))"
    using h by (simp add: mk_date_valid)
  note r = mk_date_Inr[OF mk]
  have yr: "1 \<le> d_year today" "d_year today \<le> 9999" "pad \<or> 1000 \<le> d_year today"
    using h by simp_all
  show "parse_date pad today (zfill 2 (day b) @ ''.'' @ zfill 2 (month b) @ ''.'')
            = Inr (None, month b, day b)"
    using parse_dm_dot[OF r(6,7,4,5) yr] mk by simp
qed

text \<open>
  C7, as stated, fails: the record without a year for 29 February, which \<open>29.02.\<close>
  creates in 2024, is written \<open>29.02.\<close>, and in 2025 this text is not parsed back.
\<close>

theorem str_parse_roundtrip_counterexample:
  "parse_date True (Date 2024 3 1) ''29.02.'' = Inr (None, 2, 29)
   \<and> str_Birthday True
        \<lparr>user_id = 1, guild_id = 1, year = None, month = 2, day = 29, last_notified = None,
          enabled = True, date_created = 0, date_updated = 0\<rparr> = Inr ''29.02.''
   \<and> parse_date True (Date 2025 3 1) ''29.02.''
        = Inl (ValueError ''day is out of range for month'')"
  by (simp add: parse_eval str_Birthday_def strftime_Y_def zfill_def show_nat.simps digit_char_def
      replicate_small)

theorem str_parse_roundtrip_witness:
  "str_Birthday False
     \<lparr>user_id = 1, guild_id = 1, year = Some 1990, month = 2, day = 14, last_notified = None,
       enabled = True, date_created = 0, date_updated = 0\<rparr> = Inr ''14.02.1990''
   \<and> parse_date False (Date 2024 3 1) ''14.02.1990'' = Inr (Some 1990, 2, 14)
   \<and> str_Birthday False
     \<lparr>user_id = 1, guild_id = 1, year = None, month = 2, day = 14, last_notified = None,
       enabled = True, date_created = 0, date_updated = 0\<rparr> = Inr ''14.02.''
   \<and> parse_date False (Date 2024 3 1) ''14.02.'' = Inr (None, 2, 14)"
proof -
  let ?b1 = "\<lparr>user_id = 1, guild_id = 1, year = Some 1990, month = 2, day = 14,
              last_notified = None, enabled = True, date_created = 0, date_updated = 0\<rparr>"
  let ?b2 = "\<lparr>user_id = 1, guild_id = 1, year = None, month = 2, day = 14,
              last_notified = None, enabled = True, date_created = 0, date_updated = 0\<rparr>"
  have z: "zfill 2 14 = ''14''" "zfill 2 2 = ''02''" "strftime_Y False 1990 = ''1990''"
    by (simp_all add: zfill_def strftime_Y_def show_int_def show_nat.simps digit_char_def
        replicate_small)
  have m: "mk_date 1990 2 14 = Inr (Date 1990 2 14)"
    by (simp add: mk_date_def days_in_month_def)
  note t1 = str_parse_roundtrip[of ?b1 "Date 2024 3 1" False, THEN conjunct1, rule_format,
      of 1990 "Date 1990 2 14"]
  note t2 = str_parse_roundtrip[of ?b2 "Date 2024 3 1" False, THEN conjunct2]
  have a: "str_Birthday False ?b1 = Inr ''14.02.1990''
           \<and> parse_date False (Date 2024 3 1) ''14.02.1990'' = Inr (Some 1990, 2, 14)"
    using t1 by (simp add: m z date_gt_def)
  have b: "str_Birthday False ?b2 = Inr ''14.02.''
           \<and> parse_date False (Date 2024 3 1) ''14.02.'' = Inr (None, 2, 14)"
    using t2 by (simp add: z days_in_month_def is_leap_def)
  from a b show ?thesis by simp
qed

section \<open>Patterns are anchored at the start only (C10)\<close>

lemma rmatch_seqs_snoc:
  "rmatch (seqs (rs @ [r])) s \<noteq> [] \<Longrightarrow> rmatch (seqs rs) s \<noteq> []"
proof (induction rs arbitrary: s)
  case Nil
  then show ?case by simp
next
  case (Cons x rs)
  from Cons.prems obtain g rest where gr: "(g, rest) \<in> set (rmatch x s)"
      and ne: "rmatch (seqs (rs @ [r])) rest \<noteq> []"
    by (auto simp: concat_eq_Nil_conv)
  from Cons.IH[OF ne] gr show ?case
    by (auto simp: concat_eq_Nil_conv intro!: bexI[of _ "(g, rest)"])
qed

lemma re_match_Group_None: "re_match (Group n r) s = None \<longleftrightarrow> rmatch r s = []"
  by (auto simp: re_match_def split: list.splits)

lemma trailing_dot_rule_unreachable:
  "first_match PATTERNS_DATE text \<noteq> Some (m, ''%d.%m.'')"
proof
  assume a: "first_match PATTERNS_DATE text = Some (m, ''%d.%m.'')"
  let ?rs = "[Opt (Cls ''0123''), Digit, Lit CHR ''.'', Opt (Cls ''01''), Digit]"
  have k: "re_match (Group ''date'' (seqs ?rs)) text = None
           \<Longrightarrow> re_match (Group ''date'' (seqs (?rs @ [Lit CHR ''.'']))) text = None"
    using rmatch_seqs_snoc[of "?rs" "Lit CHR ''.''" "text"]
    by (simp only: re_match_Group_None) blast
  show False
    using a k by (auto simp: PATTERNS_DATE_def split: option.splits)
qed


lemma strip_keeps_prefix:
  assumes "\<not> is_space a" "\<not> is_space z"
  shows "strip (a # mid @ z # rest) = a # mid @ z # rev (dropWhile is_space (rev rest))"
proof -
  have "dropWhile is_space (rev rest @ z # rev mid @ [a])
        = dropWhile is_space (rev rest) @ z # rev mid @ [a]"
    using assms(2) by (simp add: dropWhile_append)
  then show ?thesis using assms(1) by (simp add: strip_def)
qed

lemma first_match_trailing:
  "first_match PATTERNS_DATE (''14.02.1990'' @ rest) = Some (''14.02.1990'', ''%d.%m.%Y'')"
  by (simp add: PATTERNS_DATE_def re_match_def Suc_diff_le)


lemma parse_14_02_1990:
  "parse_date pad today ''14.02.1990'' =
     (if date_gt (Date 1990 2 14) today then Inl (BirthdayParseError MSG_FUTURE)
      else Inr (Some 1990, 2, 14))"
  by (simp add: parse_eval)

lemma parse_14_02_1990_trailing:
  "parse_date pad today (''14.02.1990'' @ trailing) = parse_date pad today ''14.02.1990''"
proof -
  have s: "strip (''14.02.1990'' @ trailing)
           = ''14.02.1990'' @ rev (dropWhile is_space (rev trailing))"
    using strip_keeps_prefix[of "CHR ''1''" "CHR ''0''" "''4.02.199''" trailing] by simp
  have s0: "strip ''14.02.1990'' = ''14.02.1990'' @ []"
    by (simp add: strip_def)
  show ?thesis
    using first_match_trailing[of "rev (dropWhile is_space (rev trailing))"]
      first_match_trailing[of "[]"] s s0
    by (simp add: parse_date_def)
qed

text \<open>
  C10: whatever text follows \<open>14.02.1990\<close>, the result is that of \<open>14.02.1990\<close>
  itself; so \<open>14.02.1990 extra\<close> parses to \<open>(1990, 2, 14)\<close> from 14.02.1990 on.  The
  rule of the format \<open>%d.%m.\<close> is the first match of no text: what it matches the rule
  before it matches, as for \<open>14.02.\<close>, which the rule \<open>%d.%m\<close> takes without the dot.
\<close>

theorem prefix_match_ignores_trailing_text:
  "parse_date pad today (''14.02.1990'' @ trailing) = parse_date pad today ''14.02.1990''
   \<and> (\<not> date_gt (Date 1990 2 14) today
        \<longrightarrow> parse_date pad today ''14.02.1990 extra'' = Inr (Some 1990, 2, 14))
   \<and> first_match PATTERNS_DATE text \<noteq> Some (m, ''%d.%m.'')
   \<and> first_match PATTERNS_DATE ''14.02.'' = Some (''14.02'', ''%d.%m'')"
proof (intro conjI impI)
  show "parse_date pad today (''14.02.1990'' @ trailing) = parse_date pad today ''14.02.1990''"
    by (rule parse_14_02_1990_trailing)
  show "first_match PATTERNS_DATE text \<noteq> Some (m, ''%d.%m.'')"
    by (rule trailing_dot_rule_unreachable)
  show "first_match PATTERNS_DATE ''14.02.'' = Some (''14.02'', ''%d.%m'')"
    by (simp add: PATTERNS_DATE_def re_match_def)
next
  assume "\<not> date_gt (Date 1990 2 14) today"
  then show "parse_date pad today ''14.02.1990 extra'' = Inr (Some 1990, 2, 14)"
    using parse_14_02_1990_trailing[of pad today "'' extra''"]
    by (simp add: parse_14_02_1990)
qed

theorem prefix_match_witness:
  "parse_date False (Date 2024 3 1) ''14.02.1990 extra'' = Inr (Some 1990, 2, 14)
   \<and> parse_date False (Date 2024 3 1) ''14.02.1990'' = Inr (Some 1990, 2, 14)
   \<and> first_match PATTERNS_DATE ''14.02.'' = Some (''14.02'', ''%d.%m'')"
proof -
  note t = prefix_match_ignores_trailing_text[of False "Date 2024 3 1" "'' extra''" "[]" "[]"]
  have a: "parse_date False (Date 2024 3 1) ''14.02.1990 extra'' = Inr (Some 1990, 2, 14)"
    using t[THEN conjunct2, THEN conjunct1] by (simp add: date_gt_def)
  have e: "parse_date False (Date 2024 3 1) (''14.02.1990'' @ '' extra'')
           = parse_date False (Date 2024 3 1) ''14.02.1990''"
    by (rule t[THEN conjunct1])
  have b: "parse_date False (Date 2024 3 1) ''14.02.1990'' = Inr (Some 1990, 2, 14)"
    using a e[symmetric] by simp
  have c: "first_match PATTERNS_DATE ''14.02.'' = Some (''14.02'', ''%d.%m'')"
    using t by simp
  from a b c show ?thesis by simp
qed


end
